theory Spec2Isabelle
  imports Complex_Main "HOL-Library.Multiset"
begin

section \<open>Data model: the reports table\<close>

text \<open>
  The table \<^verbatim>\<open>reports\<close> of database.js. Only the columns that the
  duplicate check, the status update and the resolution upload read or write are kept;
  the free-text columns of the triage result (description, department, cost, time,
  the AI analysis JSON, the audio note) are written once at insertion and never read
  by these handlers.

  Numbers are IEEE doubles in the source; here they are real numbers, with the value
  NaN written as \<open>None\<close> where the source can produce it. Rounding that only
  moves a value by a few units in the last place, and the infinities, are outside the
  model.

  A NULL column is \<open>None\<close>. \<^verbatim>\<open>merged_reports\<close> holds a JSON array of
  report ids as text, here the list of ids; \<^verbatim>\<open>is_primary\<close>,
  \<^verbatim>\<open>escalated\<close> and \<^verbatim>\<open>escalation_notified\<close> hold 0 or 1, here
  booleans; timestamps are seconds.
\<close>

datatype status = Pending | Verified | Resolved

record report =
  report_id :: int
  photo_url :: string
  latitude :: real
  longitude :: real
  status :: status
  category :: string
  severity :: string
  duplicate_of :: "int option"
  duplicate_count :: int
  similarity_score :: real
  is_primary :: bool
  merged_reports :: "int list option"
  resolution_photo_url :: "string option"
  sla_deadline :: int
  escalated :: bool
  escalation_notified :: bool
  blockchain_tx_hash :: "string option"
  last_blockchain_update :: "int option"
  created_at :: int

text \<open>
  The database: the rows in rowid order, and the AUTOINCREMENT counter (the largest
  rowid ever handed out, kept by SQLite in \<^verbatim>\<open>sqlite_sequence\<close>).
\<close>

record store =
  rows :: "report list"
  seq :: int

definition empty_store :: store where
  "empty_store = \<lparr>rows = [], seq = 0\<rparr>"

definition get_report :: "store \<Rightarrow> int \<Rightarrow> report option" where
  "get_report s i = find (\<lambda>r. report_id r = i) (rows s)"

section \<open>aiService.js: distance and the geo query\<close>

text \<open>\<^verbatim>\<open>Math.atan2(y, x)\<close> on real numbers.\<close>

definition atan2 :: "real \<Rightarrow> real \<Rightarrow> real" where
  "atan2 y x =
     (if 0 < x then arctan (y / x)
      else if x < 0 then (if 0 \<le> y then arctan (y / x) + pi else arctan (y / x) - pi)
      else if 0 < y then pi / 2
      else if y < 0 then - (pi / 2)
      else 0)"

text \<open>
  On real numbers the sum \<open>a\<close> lies between 0 and 1 (shown below). In doubles it
  can come out just below 0 or just above 1 where the exact value is 0 or 1: for the
  points (100, 0) and (80, 180) the source computes \<open>a = -6.9e-18\<close>, for the
  antipodal points (12, 77) and (-12, -103) it computes \<open>a = 1.0000000000000002\<close>.
  \<^verbatim>\<open>Math.sqrt\<close> of the negative number is then NaN, and so are
  \<^verbatim>\<open>c\<close> and the distance. The first argument of
  \<open>calculateDistance\<close> says for which pairs of points the doubles do this;
  everywhere else the distance is the real number.
\<close>

type_synonym rounding = "real \<Rightarrow> real \<Rightarrow> real \<Rightarrow> real \<Rightarrow> bool"

definition calculateDistance :: "rounding \<Rightarrow> real \<Rightarrow> real \<Rightarrow> real \<Rightarrow> real \<Rightarrow> real option" where
  "calculateDistance nan_for lat1 lon1 lat2 lon2 =
     (let R = 6371000;
          phi1 = lat1 * pi / 180;
          phi2 = lat2 * pi / 180;
          dphi = (lat2 - lat1) * pi / 180;
          dlambda = (lon2 - lon1) * pi / 180;
          a = sin (dphi / 2) * sin (dphi / 2) +
              cos phi1 * cos phi2 * sin (dlambda / 2) * sin (dlambda / 2);
          c = (if nan_for lat1 lon1 lat2 lon2 then None
               else Some (2 * atan2 (sqrt a) (sqrt (1 - a))))
      in map_option (\<lambda>c. R * c) c)"

text \<open>\<^verbatim>\<open>x <= y\<close> for a number that may be NaN: false on NaN.\<close>

definition js_le :: "real option \<Rightarrow> real \<Rightarrow> bool" where
  "js_le x y = (case x of None \<Rightarrow> False | Some v \<Rightarrow> v \<le> y)"

text \<open>A row of the geo query's answer: the report with its distance attached.\<close>

record nearby =
  row :: report
  distance :: "real option"

text \<open>
  The SELECT of findNearbyReports: primary reports that are pending or verified, whose
  id differs from the bound parameter, most recent first. SQL leaves the order of rows
  with equal \<^verbatim>\<open>created_at\<close> open; the model keeps them in rowid order.
\<close>

definition select_active :: "store \<Rightarrow> int \<Rightarrow> report list" where
  "select_active s excl =
     sort_key (\<lambda>r. - created_at r)
       (filter (\<lambda>r. is_primary r \<and> (status r = Pending \<or> status r = Verified) \<and>
                     report_id r \<noteq> excl) (rows s))"

text \<open>
  \<^verbatim>\<open>findNearbyReports(latitude, longitude, radiusMeters, excludeId)\<close>.
  The second argument is the error flag of \<^verbatim>\<open>db.all\<close>: when set the promise
  is rejected (\<open>None\<close>). The bound parameter is \<^verbatim>\<open>excludeId || -1\<close>, so
  a null and a zero \<^verbatim>\<open>excludeId\<close> both become \<open>-1\<close>. A report whose
  distance is NaN fails \<^verbatim>\<open>distance <= radiusMeters\<close> and is filtered out.
\<close>

definition findNearbyReports ::
  "rounding \<Rightarrow> bool \<Rightarrow> store \<Rightarrow> real \<Rightarrow> real \<Rightarrow> real \<Rightarrow> int option \<Rightarrow> nearby list option" where
  "findNearbyReports nan_for err s lat lon radiusMeters excludeId =
     (if err then None
      else
        let param = (case excludeId of None \<Rightarrow> - 1 | Some e \<Rightarrow> if e = 0 then - 1 else e);
            reports = select_active s param
        in Some (map (\<lambda>r. \<lparr>row = r,
                            distance = calculateDistance nan_for lat lon
                                         (latitude r) (longitude r)\<rparr>)
                  (filter (\<lambda>r. js_le (calculateDistance nan_for lat lon
                                          (latitude r) (longitude r)) radiusMeters)
                     reports)))"

text \<open>
  \<^verbatim>\<open>compareImages\<close> answers with an object whose
  \<^verbatim>\<open>similarityScore\<close> the handler compares with 80. The field holds the
  number JavaScript compares (\<open>None\<close> for NaN and for a missing or non-numeric
  field, where \<^verbatim>\<open>>=\<close> is false).
\<close>

record comparison =
  similarityScore :: "real option"
  isSameIssue :: bool
  reasoning :: string
  aiProcessed :: bool
  fallbackUsed :: bool

text \<open>
  \<^verbatim>\<open>fallbackImageSimilarity(imagePath1, imagePath2)\<close>. The argument
  \<open>statSize\<close> is \<^verbatim>\<open>fs.statSync(path).size\<close>, \<open>None\<close> when it
  throws. \<^verbatim>\<open>sizeDiff / avgSize\<close> is NaN when both files are empty (0/0):
  \<^verbatim>\<open>Math.max\<close> and \<^verbatim>\<open>Math.min\<close> pass NaN through, and
  \<^verbatim>\<open>NaN > 80\<close> is false.
\<close>

definition fallbackImageSimilarity :: "(string \<Rightarrow> nat option) \<Rightarrow> string \<Rightarrow> string \<Rightarrow> comparison" where
  "fallbackImageSimilarity statSize imagePath1 imagePath2 =
     (case (statSize imagePath1, statSize imagePath2) of
        (Some size1, Some size2) \<Rightarrow>
          (let sizeDiff = \<bar>real size1 - real size2\<bar>;
               avgSize = (real size1 + real size2) / 2;
               sizeSimularity =
                 (if avgSize = 0 then None
                  else Some (max 0 (100 - (sizeDiff / avgSize) * 100)))
           in \<lparr>similarityScore = map_option (min 50) sizeSimularity,
               isSameIssue = (case sizeSimularity of None \<Rightarrow> False | Some v \<Rightarrow> 80 < v),
               reasoning = ''Fallback comparison based on file size (AI not available)'',
               aiProcessed = False,
               fallbackUsed = True\<rparr>)
      | _ \<Rightarrow>
          \<lparr>similarityScore = Some 0,
           isSameIssue = False,
           reasoning = ''Could not compare images'',
           aiProcessed = False,
           fallbackUsed = True\<rparr>)"

text \<open>
  One pass through the body of the retry loop of \<^verbatim>\<open>compareImages\<close>, once
  the API key check has passed: Gemini's answer parsed as JSON, or an exception
  (preprocessing, file reading, the API call or \<^verbatim>\<open>JSON.parse\<close>), with
  whether \<^verbatim>\<open>error.status === 503\<close>.
\<close>

datatype attempt_outcome = Answered comparison | Failed bool

record ai_env =
  apiKeyConfigured :: bool
  attemptOutcome :: "nat \<Rightarrow> attempt_outcome"
  statSize :: "string \<Rightarrow> nat option"

definition maxRetries :: nat where
  "maxRetries = 3"

text \<open>
  The loop \<^verbatim>\<open>for (let attempt = 1; attempt <= maxRetries; attempt++)\<close>,
  from a given attempt on. \<open>None\<close> is falling off the end of the loop
  (\<^verbatim>\<open>undefined\<close>). The five second pause before a retry is not modelled.
\<close>

function compareImages_from :: "ai_env \<Rightarrow> string \<Rightarrow> string \<Rightarrow> nat \<Rightarrow> comparison option" where
  "compareImages_from e imagePath1 imagePath2 attempt =
     (if attempt \<le> maxRetries then
        (if \<not> apiKeyConfigured e
         then Some (fallbackImageSimilarity (statSize e) imagePath1 imagePath2)
         else
           (case attemptOutcome e attempt of
              Answered cmp \<Rightarrow> Some (cmp\<lparr>aiProcessed := True\<rparr>)
            | Failed overloaded \<Rightarrow>
                (if overloaded \<and> attempt < maxRetries
                 then compareImages_from e imagePath1 imagePath2 (attempt + 1)
                 else if attempt = maxRetries
                 then Some (fallbackImageSimilarity (statSize e) imagePath1 imagePath2)
                 else compareImages_from e imagePath1 imagePath2 (attempt + 1))))
      else None)"
  by pat_completeness auto
termination
  by (relation "measure (\<lambda>(e, p1, p2, attempt). maxRetries + 1 - attempt)") auto

declare compareImages_from.simps [simp del]

definition compareImages :: "ai_env \<Rightarrow> string \<Rightarrow> string \<Rightarrow> comparison option" where
  "compareImages e imagePath1 imagePath2 = compareImages_from e imagePath1 imagePath2 1"

section \<open>server.js: POST /report\<close>

text \<open>
  The multipart request: the stored file name of the uploaded photo (\<open>None\<close> when
  no photo was sent) and the two text fields, \<open>None\<close> when absent.
\<close>

record submission =
  photo :: "string option"
  latitude_field :: "string option"
  longitude_field :: "string option"

text \<open>\<^verbatim>\<open>!field\<close> for a text field: absent or the empty string.\<close>

definition missing :: "string option \<Rightarrow> bool" where
  "missing field = (case field of None \<Rightarrow> True | Some v \<Rightarrow> v = [])"

text \<open>What one call of \<^verbatim>\<open>aiService.compareImages\<close> does, seen from the handler.\<close>

datatype oracle_outcome = Threw | Returned comparison

text \<open>
  Everything the handler takes from outside the store while it serves one submission:
  the builtin \<^verbatim>\<open>parseFloat\<close> (\<open>None\<close> is NaN), the pairs of points for
  which the doubles make the distance NaN, the triage result of
  \<^verbatim>\<open>analyzeImage\<close>, the file system, the comparison made for each candidate,
  the deadline computed by \<^verbatim>\<open>escalationService.getSlaDeadline\<close> (a module
  outside the sources), the hash of the blockchain log (\<open>None\<close> when logging threw),
  the clock, and the error flags of the three database calls (the SELECT of the geo
  query, the INSERT, which also fails on a violated CHECK constraint, and the UPDATE of
  the primary report). \<^verbatim>\<open>getSlaDeadline\<close> is taken to return a valid date.
\<close>

record post_env =
  parseFloat :: "string \<Rightarrow> real option"
  rounds_outside :: rounding
  analysis_category :: string
  analysis_severity :: string
  existsSync :: "string \<Rightarrow> bool"
  compare_with :: "nearby \<Rightarrow> oracle_outcome"
  slaDeadline :: int
  blockchainTxHash :: "string option"
  now :: int
  selectErr :: bool
  insertErr :: bool
  updateErr :: bool

record duplicate_info =
  primaryReportId :: int
  dup_similarityScore :: real
  dup_distance :: "real option"
  dup_reasoning :: string

text \<open>\<^verbatim>\<open>similarity.similarityScore >= 80\<close>.\<close>

definition score_ge :: "comparison \<Rightarrow> real \<Rightarrow> bool" where
  "score_ge similarity threshold =
     (case similarityScore similarity of None \<Rightarrow> False | Some v \<Rightarrow> threshold \<le> v)"

text \<open>
  The loop over \<^verbatim>\<open>nearbyReports\<close>. Besides \<^verbatim>\<open>duplicateInfo\<close> it
  returns the ids of the candidates for which \<^verbatim>\<open>compareImages\<close> was called,
  in call order. An exception inside the loop body is caught and the loop goes on.
\<close>

fun similarity_loop ::
  "(string \<Rightarrow> bool) \<Rightarrow> (nearby \<Rightarrow> oracle_outcome) \<Rightarrow> nearby list \<Rightarrow> duplicate_info option \<times> int list" where
  "similarity_loop ex cmp [] = (None, [])"
| "similarity_loop ex cmp (nearbyReport # rest) =
     (if ex (photo_url (row nearbyReport)) then
        (case cmp nearbyReport of
           Returned similarity \<Rightarrow>
             (if score_ge similarity 80
              then (Some \<lparr>primaryReportId = report_id (row nearbyReport),
                          dup_similarityScore = the (similarityScore similarity),
                          dup_distance = distance nearbyReport,
                          dup_reasoning = reasoning similarity\<rparr>,
                    [report_id (row nearbyReport)])
              else (fst (similarity_loop ex cmp rest),
                    report_id (row nearbyReport) # snd (similarity_loop ex cmp rest)))
         | Threw \<Rightarrow>
             (fst (similarity_loop ex cmp rest),
              report_id (row nearbyReport) # snd (similarity_loop ex cmp rest)))
      else similarity_loop ex cmp rest)"

text \<open>
  The responses: an error status with its message; status 201 with the new report's
  id, \<^verbatim>\<open>isDuplicate\<close> and \<^verbatim>\<open>primaryReportId\<close>; the answer of the
  status update with \<^verbatim>\<open>clearedEscalation\<close>; the answer of the resolution
  upload, with whether the verification ran.
\<close>

datatype response =
    Rejected nat string
  | Created int bool "int option"
  | Updated bool
  | ResolutionSaved bool

text \<open>
  The two INSERT statements; the columns they leave out take the table's defaults. The
  new row gets the next AUTOINCREMENT id. \<open>update_where_id\<close> is an UPDATE with
  \<^verbatim>\<open>WHERE id = ?\<close>.
\<close>

definition duplicate_row :: "post_env \<Rightarrow> string \<Rightarrow> real \<Rightarrow> real \<Rightarrow> duplicate_info \<Rightarrow> int \<Rightarrow> report" where
  "duplicate_row e file lat lon info new_id =
     \<lparr>report_id = new_id, photo_url = ''/uploads/'' @ file,
      latitude = lat, longitude = lon, status = Pending,
      category = analysis_category e, severity = analysis_severity e,
      duplicate_of = Some (primaryReportId info), duplicate_count = 1,
      similarity_score = dup_similarityScore info, is_primary = False,
      merged_reports = None, resolution_photo_url = None,
      sla_deadline = slaDeadline e, escalated = False, escalation_notified = False,
      blockchain_tx_hash = blockchainTxHash e, last_blockchain_update = Some (now e),
      created_at = now e\<rparr>"

definition primary_row :: "post_env \<Rightarrow> string \<Rightarrow> real \<Rightarrow> real \<Rightarrow> int \<Rightarrow> report" where
  "primary_row e file lat lon new_id =
     \<lparr>report_id = new_id, photo_url = ''/uploads/'' @ file,
      latitude = lat, longitude = lon, status = Pending,
      category = analysis_category e, severity = analysis_severity e,
      duplicate_of = None, duplicate_count = 1,
      similarity_score = 0, is_primary = True,
      merged_reports = None, resolution_photo_url = None,
      sla_deadline = slaDeadline e, escalated = False, escalation_notified = False,
      blockchain_tx_hash = blockchainTxHash e, last_blockchain_update = Some (now e),
      created_at = now e\<rparr>"

definition insert_row :: "store \<Rightarrow> report \<Rightarrow> store" where
  "insert_row s r = \<lparr>rows = rows s @ [r], seq = seq s + 1\<rparr>"

definition update_where_id :: "int \<Rightarrow> (report \<Rightarrow> report) \<Rightarrow> store \<Rightarrow> store" where
  "update_where_id i f s = s\<lparr>rows := map (\<lambda>r. if report_id r = i then f r else r) (rows s)\<rparr>"

text \<open>
  \<^verbatim>\<open>updatePrimaryQuery\<close>: the count goes up by one and the new id is appended
  to the JSON array (a NULL column becomes the one-element array).
\<close>

definition merge_into :: "int \<Rightarrow> report \<Rightarrow> report" where
  "merge_into duplicateReportId r =
     r\<lparr>duplicate_count := duplicate_count r + 1,
       merged_reports :=
         (case merged_reports r of
            None \<Rightarrow> Some [duplicateReportId]
          | Some ids \<Rightarrow> Some (ids @ [duplicateReportId]))\<rparr>"

definition update_primary :: "store \<Rightarrow> int \<Rightarrow> int \<Rightarrow> store" where
  "update_primary s primaryId duplicateReportId =
     update_where_id primaryId (merge_into duplicateReportId) s"

text \<open>
  The handler. A coordinate that \<^verbatim>\<open>parseFloat\<close> turns into NaN passes the
  presence check; every distance is then NaN, no candidate passes the radius filter,
  and the INSERT fails on the NOT NULL constraint (SQLite binds NaN as NULL).
\<close>

definition post_report :: "post_env \<Rightarrow> submission \<Rightarrow> store \<Rightarrow> response \<times> store" where
  "post_report e req s =
     (case photo req of
        None \<Rightarrow> (Rejected 400 ''Photo is required'', s)
      | Some file \<Rightarrow>
          if missing (latitude_field req) \<or> missing (longitude_field req)
          then (Rejected 400 ''Latitude and longitude are required'', s)
          else
            (case (parseFloat e (the (latitude_field req)),
                   parseFloat e (the (longitude_field req))) of
               (Some lat, Some lon) \<Rightarrow>
                 (case findNearbyReports (rounds_outside e) (selectErr e) s lat lon 50 None of
                    None \<Rightarrow> (Rejected 500 ''Internal server error'', s)
                  | Some nearbyReports \<Rightarrow>
                      (case fst (similarity_loop (existsSync e) (compare_with e) nearbyReports) of
                         Some duplicateInfo \<Rightarrow>
                           if insertErr e then (Rejected 500 ''Failed to save report'', s)
                           else
                             let duplicateReportId = seq s + 1;
                                 s1 = insert_row s
                                        (duplicate_row e file lat lon duplicateInfo duplicateReportId);
                                 s2 = (if updateErr e then s1
                                       else update_primary s1 (primaryReportId duplicateInfo)
                                              duplicateReportId)
                             in (Created duplicateReportId True
                                   (Some (primaryReportId duplicateInfo)), s2)
                       | None \<Rightarrow>
                           if insertErr e then (Rejected 500 ''Failed to save report'', s)
                           else
                             let reportId = seq s + 1
                             in (Created reportId False None,
                                 insert_row s (primary_row e file lat lon reportId))))
             | _ \<Rightarrow>
                 if selectErr e then (Rejected 500 ''Internal server error'', s)
                 else (Rejected 500 ''Failed to save report'', s)))"

section \<open>server.js: PATCH /report/:id and POST /report/:id/resolve\<close>

definition parse_status :: "string \<Rightarrow> status option" where
  "parse_status v =
     (if v = ''pending'' then Some Pending
      else if v = ''verified'' then Some Verified
      else if v = ''resolved'' then Some Resolved
      else None)"

record patch_env =
  patch_getErr :: bool
  patch_updateErr :: bool
  patch_txHash :: "string option"
  patch_now :: int

text \<open>
  The UPDATE of the status handler: with \<^verbatim>\<open>resolved\<close> the statement also
  clears the two escalation columns.
\<close>

definition set_status :: "status \<Rightarrow> string option \<Rightarrow> int \<Rightarrow> report \<Rightarrow> report" where
  "set_status st tx t r =
     (if st = Resolved
      then r\<lparr>status := st, escalated := False, escalation_notified := False,
             blockchain_tx_hash := tx, last_blockchain_update := Some t\<rparr>
      else r\<lparr>status := st, blockchain_tx_hash := tx, last_blockchain_update := Some t\<rparr>)"

text \<open>
  The route parameter \<^verbatim>\<open>:id\<close> is the integer SQLite compares with the
  column; the body's \<^verbatim>\<open>status\<close> is \<open>None\<close> when absent. The
  report was just read, so the UPDATE changes a row and the branch for
  \<^verbatim>\<open>this.changes === 0\<close> is not taken.
\<close>

definition patch_report :: "patch_env \<Rightarrow> int \<Rightarrow> string option \<Rightarrow> store \<Rightarrow> response \<times> store" where
  "patch_report e i body_status s =
     (case (if missing body_status then None else parse_status (the body_status)) of
        None \<Rightarrow> (Rejected 400 ''Invalid status. Must be pending, verified, or resolved'', s)
      | Some st \<Rightarrow>
          if patch_getErr e then (Rejected 500 ''Failed to fetch report'', s)
          else
            (case get_report s i of
               None \<Rightarrow> (Rejected 404 ''Report not found'', s)
             | Some report \<Rightarrow>
                 if patch_updateErr e then (Rejected 500 ''Failed to update report'', s)
                 else (Updated (st = Resolved),
                       update_where_id i (set_status st (patch_txHash e) (patch_now e)) s)))"

record resolve_env =
  resolve_getErr :: bool
  resolve_updateErr :: bool
  verifyResolution_throws :: bool
  resolve_now :: int

text \<open>
  Both UPDATE statements of the resolution handler (after a verification and after a
  failed one) set the same columns of this model.
\<close>

definition set_resolved :: "string \<Rightarrow> int \<Rightarrow> report \<Rightarrow> report" where
  "set_resolved file t r =
     r\<lparr>status := Resolved, resolution_photo_url := Some (''/uploads/'' @ file),
       escalated := False, escalation_notified := False,
       last_blockchain_update := Some t\<rparr>"

definition post_resolve :: "resolve_env \<Rightarrow> int \<Rightarrow> string option \<Rightarrow> store \<Rightarrow> response \<times> store" where
  "post_resolve e i file s =
     (case file of
        None \<Rightarrow> (Rejected 400 ''Resolution photo is required'', s)
      | Some f \<Rightarrow>
          if resolve_getErr e then (Rejected 500 ''Failed to fetch report'', s)
          else
            (case get_report s i of
               None \<Rightarrow> (Rejected 404 ''Report not found'', s)
             | Some report \<Rightarrow>
                 if resolve_updateErr e then (Rejected 500 ''Failed to update report'', s)
                 else (ResolutionSaved (\<not> verifyResolution_throws e),
                       update_where_id i (set_resolved f (resolve_now e)) s)))"

section \<open>Notions used to state the properties\<close>

text \<open>
  The distance as the specification words it: degrees are converted to radians, the
  angular separation comes from the haversine formula, and it is multiplied by the
  Earth's mean radius of 6,371,000 m.
\<close>

definition spec_radians :: "real \<Rightarrow> real" where
  "spec_radians d = d * pi / 180"

definition spec_haversine :: "real \<Rightarrow> real" where
  "spec_haversine \<theta> = (sin (\<theta> / 2))\<^sup>2"

definition spec_distance :: "real \<Rightarrow> real \<Rightarrow> real \<Rightarrow> real \<Rightarrow> real" where
  "spec_distance lat1 lon1 lat2 lon2 =
     6371000 *
       (2 * arcsin (sqrt (spec_haversine (spec_radians lat2 - spec_radians lat1) +
                          cos (spec_radians lat1) * cos (spec_radians lat2) *
                            spec_haversine (spec_radians lon2 - spec_radians lon1))))"

text \<open>
  The candidates of the specification's \<open>findNearby\<close>: primary, pending or verified,
  not the excluded report (a null \<open>excludeId\<close> excludes nothing), within the radius.
\<close>

definition spec_candidate :: "real \<Rightarrow> real \<Rightarrow> real \<Rightarrow> int option \<Rightarrow> report \<Rightarrow> bool" where
  "spec_candidate lat lon radiusMeters excludeId r \<longleftrightarrow>
     is_primary r \<and> (status r = Pending \<or> status r = Verified) \<and>
     Some (report_id r) \<noteq> excludeId \<and>
     spec_distance lat lon (latitude r) (longitude r) \<le> radiusMeters"

text \<open>
  A candidate matches when its photo is on disk and the comparison returns a score of
  at least 80.
\<close>

definition is_match :: "(string \<Rightarrow> bool) \<Rightarrow> (nearby \<Rightarrow> oracle_outcome) \<Rightarrow> nearby \<Rightarrow> bool" where
  "is_match ex cmp c \<longleftrightarrow>
     ex (photo_url (row c)) \<and>
     (case cmp c of Returned similarity \<Rightarrow> score_ge similarity 80 | Threw \<Rightarrow> False)"

text \<open>A candidate that cannot be compared: no photo on disk, or the comparison threw.\<close>

definition unusable :: "(string \<Rightarrow> bool) \<Rightarrow> (nearby \<Rightarrow> oracle_outcome) \<Rightarrow> nearby \<Rightarrow> bool" where
  "unusable ex cmp c \<longleftrightarrow> \<not> ex (photo_url (row c)) \<or> cmp c = Threw"

definition has_photo :: "(string \<Rightarrow> bool) \<Rightarrow> nearby \<Rightarrow> bool" where
  "has_photo ex c \<longleftrightarrow> ex (photo_url (row c))"

definition nearby_id :: "nearby \<Rightarrow> int" where
  "nearby_id c = report_id (row c)"

text \<open>The ids merged into a report (a NULL column is the empty list).\<close>

definition merged_list :: "report \<Rightarrow> int list" where
  "merged_list r = (case merged_reports r of None \<Rightarrow> [] | Some ids \<Rightarrow> ids)"

definition duplicates_of :: "store \<Rightarrow> int \<Rightarrow> report list" where
  "duplicates_of s i = filter (\<lambda>d. duplicate_of d = Some i) (rows s)"

text \<open>
  What AUTOINCREMENT gives: ids are positive, pairwise different and not above the
  counter; a \<^verbatim>\<open>duplicate_of\<close> reference is not above the counter either.
\<close>

fun at_most :: "int \<Rightarrow> int option \<Rightarrow> bool" where
  "at_most n None = True"
| "at_most n (Some p) = (p \<le> n)"

definition wf_store :: "store \<Rightarrow> bool" where
  "wf_store s \<longleftrightarrow>
     0 \<le> seq s \<and> distinct (map report_id (rows s)) \<and>
     list_all (\<lambda>r. 0 < report_id r \<and> report_id r \<le> seq s \<and>
                    at_most (seq s) (duplicate_of r)) (rows s)"

text \<open>The merge bookkeeping of one primary report.\<close>

definition counts_agree :: "store \<Rightarrow> report \<Rightarrow> bool" where
  "counts_agree s p \<longleftrightarrow>
     duplicate_count p = 1 + int (length (merged_list p)) \<and>
     length (merged_list p) = length (duplicates_of s (report_id p))"

text \<open>
  A submission that passes the presence check with numeric coordinates and whose
  SELECT and INSERT go through: the requests that are not answered with 400 or 500.
  It is accepted when the UPDATE of the primary, if there is one, goes through as well.
\<close>

definition served :: "post_env \<Rightarrow> submission \<Rightarrow> bool" where
  "served e req \<longleftrightarrow>
     photo req \<noteq> None \<and>
     \<not> missing (latitude_field req) \<and> \<not> missing (longitude_field req) \<and>
     parseFloat e (the (latitude_field req)) \<noteq> None \<and>
     parseFloat e (the (longitude_field req)) \<noteq> None \<and>
     \<not> selectErr e \<and> \<not> insertErr e"

definition accepted :: "post_env \<Rightarrow> submission \<Rightarrow> bool" where
  "accepted e req \<longleftrightarrow> served e req \<and> \<not> updateErr e"

text \<open>
  The candidates the handler iterates over and the match it settles on.
\<close>

definition candidates :: "post_env \<Rightarrow> submission \<Rightarrow> store \<Rightarrow> nearby list" where
  "candidates e req s =
     (case findNearbyReports (rounds_outside e) False s
             (the (parseFloat e (the (latitude_field req))))
             (the (parseFloat e (the (longitude_field req)))) 50 None of
        None \<Rightarrow> [] | Some cs \<Rightarrow> cs)"

text \<open>
  The stores the three operations can produce, starting from the empty table. A failed
  UPDATE of the primary is only logged by the submission handler, so the submissions
  counted here are those whose UPDATE goes through.
\<close>

inductive reachable :: "store \<Rightarrow> bool" where
  start: "reachable empty_store"
| submit: "reachable s \<Longrightarrow> \<not> updateErr e \<Longrightarrow> reachable (snd (post_report e req s))"
| set_status: "reachable s \<Longrightarrow> reachable (snd (patch_report pe i body_status s))"
| resolve: "reachable s \<Longrightarrow> reachable (snd (post_resolve re i file s))"

text \<open>The first matching candidate of a submission.\<close>

definition first_match :: "post_env \<Rightarrow> submission \<Rightarrow> store \<Rightarrow> nearby option" where
  "first_match e req s = find (is_match (existsSync e) (compare_with e)) (candidates e req s)"

text \<open>The invariant behind the merge counters.\<close>

definition bookkeeping :: "store \<Rightarrow> bool" where
  "bookkeeping s \<longleftrightarrow>
     wf_store s \<and> list_all (\<lambda>p. \<not> is_primary p \<or> counts_agree s p) (rows s)"

text \<open>
  A call of \<^verbatim>\<open>compareImages\<close> that ends in the file-size fallback: the API key
  is not configured, or all three attempts failed.
\<close>

definition degraded :: "ai_env \<Rightarrow> bool" where
  "degraded ae \<longleftrightarrow>
     \<not> apiKeyConfigured ae \<or>
     list_all (\<lambda>k. case attemptOutcome ae k of Failed overloaded \<Rightarrow> True | Answered cmp \<Rightarrow> False)
       [1, 2, 3]"

text \<open>
  The handler's comparison for a candidate when it is served by \<^verbatim>\<open>compareImages\<close>
  in a given environment (paths are identified with the stored URLs). Reading
  \<^verbatim>\<open>similarityScore\<close> of \<^verbatim>\<open>undefined\<close> would throw.
\<close>

definition oracle_of :: "ai_env \<Rightarrow> string \<Rightarrow> nearby \<Rightarrow> oracle_outcome" where
  "oracle_of ae imagePath c =
     (case compareImages ae imagePath (photo_url (row c)) of
        None \<Rightarrow> Threw
      | Some similarity \<Rightarrow> Returned similarity)"

section \<open>Example data\<close>

text \<open>
  \<^verbatim>\<open>parseFloat\<close> on the three strings the examples send. Report A is submitted
  into the empty table; report B arrives at the same coordinates and the comparison
  with A scores 85. No distance of these examples is NaN.
\<close>

definition example_parseFloat :: "string \<Rightarrow> real option" where
  "example_parseFloat v =
     (if v = ''12'' then Some 12 else if v = ''77'' then Some 77
      else if v = ''999'' then Some 999 else None)"

definition example_comparison :: comparison where
  "example_comparison =
     \<lparr>similarityScore = Some 85, isSameIssue = True, reasoning = ''same pothole'',
      aiProcessed = True, fallbackUsed = False\<rparr>"

definition example_env :: post_env where
  "example_env =
     \<lparr>parseFloat = example_parseFloat, rounds_outside = (\<lambda>lat1 lon1 lat2 lon2. False),
      analysis_category = ''POTHOLE'',
      analysis_severity = ''HIGH'', existsSync = (\<lambda>p. True),
      compare_with = (\<lambda>c. Returned example_comparison),
      slaDeadline = 86400, blockchainTxHash = None, now = 0,
      selectErr = False, insertErr = False, updateErr = False\<rparr>"

definition submission_A :: submission where
  "submission_A =
     \<lparr>photo = Some ''a.jpg'', latitude_field = Some ''12'', longitude_field = Some ''77''\<rparr>"

definition submission_B :: submission where
  "submission_B =
     \<lparr>photo = Some ''b.jpg'', latitude_field = Some ''12'', longitude_field = Some ''77''\<rparr>"

definition out_of_range_submission :: submission where
  "out_of_range_submission =
     \<lparr>photo = Some ''c.jpg'', latitude_field = Some ''999'', longitude_field = Some ''77''\<rparr>"

definition report_A :: report where
  "report_A = primary_row example_env ''a.jpg'' 12 77 1"

definition report_B :: report where
  "report_B =
     duplicate_row example_env ''b.jpg'' 12 77
       \<lparr>primaryReportId = 1, dup_similarityScore = 85, dup_distance = Some 0,
        dup_reasoning = ''same pothole''\<rparr> 2"

definition store_A :: store where
  "store_A = \<lparr>rows = [report_A], seq = 1\<rparr>"

definition store_AB :: store where
  "store_AB = \<lparr>rows = [merge_into 2 report_A, report_B], seq = 2\<rparr>"

text \<open>
  Three candidates in the order of the geo query: the first scores 40, the second 85,
  the third 95.
\<close>

definition candidate :: "int \<Rightarrow> nearby" where
  "candidate i = \<lparr>row = report_A\<lparr>report_id := i\<rparr>, distance = Some 0\<rparr>"

definition example_scores :: "nearby \<Rightarrow> oracle_outcome" where
  "example_scores c =
     Returned (example_comparison\<lparr>similarityScore :=
       Some (if nearby_id c = 3 then 40 else if nearby_id c = 2 then 85 else 95)\<rparr>)"

definition empty_files :: ai_env where
  "empty_files =
     \<lparr>apiKeyConfigured = False, attemptOutcome = (\<lambda>k. Failed False),
      statSize = (\<lambda>p. Some 0)\<rparr>"

definition example_patch_env :: patch_env where
  "example_patch_env =
     \<lparr>patch_getErr = False, patch_updateErr = False, patch_txHash = None, patch_now = 5\<rparr>"

definition example_resolve_env :: resolve_env where
  "example_resolve_env =
     \<lparr>resolve_getErr = False, resolve_updateErr = False, verifyResolution_throws = True,
      resolve_now = 6\<rparr>"

text \<open>Report A after an escalation sweep has marked and notified it.\<close>

definition escalated_store :: store where
  "escalated_store =
     \<lparr>rows = [report_A\<lparr>escalated := True, escalation_notified := True\<rparr>], seq = 1\<rparr>"

text \<open>
  Report B submitted while the UPDATE of the primary fails: what the table then holds.
\<close>

definition stale_store :: store where
  "stale_store = \<lparr>rows = [report_A, report_B], seq = 2\<rparr>"

text \<open>
  Two primary reports at the same point; the comparison with the first throws, the
  comparison with the second scores 85.
\<close>

definition report_C :: report where
  "report_C = primary_row example_env ''c.jpg'' 12 77 2"

definition store_AC :: store where
  "store_AC = \<lparr>rows = [report_A, report_C], seq = 2\<rparr>"

definition throwing_env :: post_env where
  "throwing_env =
     example_env\<lparr>compare_with :=
       (\<lambda>c. if nearby_id c = 1 then Threw else Returned example_comparison)\<rparr>"




section \<open>The distance and the geo query\<close>

text \<open>
  The SELECT keeps exactly the rows that pass its WHERE clause, most recent first.
\<close>

lemma select_active_mset:
  "mset (select_active s excl) =
     filter_mset (\<lambda>r. is_primary r \<and> (status r = Pending \<or> status r = Verified) \<and>
                        report_id r \<noteq> excl) (mset (rows s))"
  by (simp add: select_active_def)

lemma select_active_sorted:
  "sorted_wrt (\<lambda>a b. created_at b \<le> created_at a) (select_active s excl)"
proof -
  have "sorted (map (\<lambda>r. - created_at r) (select_active s excl))"
    unfolding select_active_def by (rule sorted_sort_key)
  then show ?thesis
    by (simp add: sorted_map sorted_wrt_iff_nth_less)
qed

text \<open>
  The quantity under the square roots is half of one minus the cosine of the central
  angle, hence between 0 and 1; \<^verbatim>\<open>atan2\<close> of the two roots is then
  the arc sine, and the code's distance, where the doubles do not make it NaN, is the
  specification's.
\<close>

lemma haversine_half: "spec_haversine (t::real) = (1 - cos t) / 2"
  unfolding spec_haversine_def using cos_double_sin[of "t/2"] by simp

lemma hav_central:
  "spec_haversine (p2 - p1) + cos p1 * cos p2 * spec_haversine l =
   (1 - (sin p1 * sin p2 + cos p1 * cos p2 * cos l)) / 2"
  by (simp add: haversine_half cos_diff field_simps)

lemma dot_bound: "\<bar>sin p1 * sin p2 + cos p1 * cos p2 * cos l\<bar> \<le> (1::real)"
proof -
  have c: "\<bar>cos l\<bar> \<le> 1" by (rule abs_cos_le_one)
  have "\<bar>sin p1 * sin p2 + cos p1 * cos p2 * cos l\<bar> \<le> \<bar>sin p1 * sin p2\<bar> + \<bar>cos p1 * cos p2 * cos l\<bar>"
    by (rule abs_triangle_ineq)
  also have "\<bar>cos p1 * cos p2 * cos l\<bar> = \<bar>cos p1 * cos p2\<bar> * \<bar>cos l\<bar>" by (simp add: abs_mult)
  also have "\<bar>sin p1 * sin p2\<bar> + \<bar>cos p1 * cos p2\<bar> * \<bar>cos l\<bar> \<le> \<bar>sin p1 * sin p2\<bar> + \<bar>cos p1 * cos p2\<bar>"
    using c by (simp add: mult_left_le)
  also have "\<dots> \<le> 1"
  proof -
    have "\<bar>sin p1 * sin p2\<bar> + \<bar>cos p1 * cos p2\<bar> = \<bar>sin p1\<bar> * \<bar>sin p2\<bar> + \<bar>cos p1\<bar> * \<bar>cos p2\<bar>"
      by (simp add: abs_mult)
    moreover have "2 * (\<bar>sin p1\<bar> * \<bar>sin p2\<bar>) \<le> (sin p1)\<^sup>2 + (sin p2)\<^sup>2"
      using sum_squares_bound[of "\<bar>sin p1\<bar>" "\<bar>sin p2\<bar>"] by simp
    moreover have "2 * (\<bar>cos p1\<bar> * \<bar>cos p2\<bar>) \<le> (cos p1)\<^sup>2 + (cos p2)\<^sup>2"
      using sum_squares_bound[of "\<bar>cos p1\<bar>" "\<bar>cos p2\<bar>"] by simp
    moreover have "(sin p1)\<^sup>2 + (cos p1)\<^sup>2 = 1" "(sin p2)\<^sup>2 + (cos p2)\<^sup>2 = 1" by simp_all
    ultimately show ?thesis by linarith
  qed
  finally show ?thesis by simp
qed

lemma hav_range:
  "0 \<le> spec_haversine (p2 - p1) + cos p1 * cos p2 * spec_haversine l"
  "spec_haversine (p2 - p1) + cos p1 * cos p2 * spec_haversine l \<le> 1"
  using dot_bound[of p1 p2 l] unfolding hav_central by (simp_all add: abs_le_iff)

lemma atan2_sqrt: 
  assumes "0 \<le> a" "a \<le> 1"
  shows "atan2 (sqrt a) (sqrt (1 - a)) = arcsin (sqrt a)"
proof (cases "a = 1")
  case True then show ?thesis by (simp add: atan2_def)
next
  case False
  with assms have lt: "a < 1" by simp
  then have pos: "0 < sqrt (1 - a)" by simp
  have s1: "sqrt a < 1" using lt assms by (simp add: real_sqrt_lt_1_iff)
  have s0: "-1 < sqrt a" using assms by (smt (verit) real_sqrt_ge_zero)
  have "arcsin (sqrt a) = arctan (sqrt a / sqrt (1 - (sqrt a)\<^sup>2))"
    using arcsin_arctan[OF s0 s1] .
  also have "(sqrt a)\<^sup>2 = a" using assms by simp
  finally show ?thesis using pos by (simp add: atan2_def)
qed

lemma calculateDistance_spec:
  "calculateDistance ro lat1 lon1 lat2 lon2 =
     (if ro lat1 lon1 lat2 lon2 then None else Some (spec_distance lat1 lon1 lat2 lon2))"
proof -
  let ?p1 = "spec_radians lat1" and ?p2 = "spec_radians lat2" and ?l = "spec_radians lon2 - spec_radians lon1"
  let ?a = "spec_haversine (?p2 - ?p1) + cos ?p1 * cos ?p2 * spec_haversine ?l"
  have d1: "(lat2 - lat1) * pi / 180 = ?p2 - ?p1" by (simp add: spec_radians_def algebra_simps diff_divide_distrib)
  have d2: "(lon2 - lon1) * pi / 180 = ?l" by (simp add: spec_radians_def algebra_simps diff_divide_distrib)
  have a: "sin ((lat2 - lat1) * pi / 180 / 2) * sin ((lat2 - lat1) * pi / 180 / 2) +
           cos (lat1 * pi / 180) * cos (lat2 * pi / 180) * sin ((lon2 - lon1) * pi / 180 / 2) * sin ((lon2 - lon1) * pi / 180 / 2) = ?a"
    unfolding d1 d2 by (simp add: spec_haversine_def power2_eq_square spec_radians_def)
  show ?thesis
    unfolding calculateDistance_def Let_def a spec_distance_def
    using atan2_sqrt[OF hav_range] by simp
qed

lemma js_le_distance:
  "js_le (calculateDistance ro lat1 lon1 lat2 lon2) radiusMeters \<longleftrightarrow>
     \<not> ro lat1 lon1 lat2 lon2 \<and> spec_distance lat1 lon1 lat2 lon2 \<le> radiusMeters"
  by (simp add: calculateDistance_spec js_le_def)

text \<open>
  On positive ids, comparing with \<^verbatim>\<open>excludeId || -1\<close> is comparing
  with \<^verbatim>\<open>excludeId\<close>.
\<close>

lemma positive_ids_param:
  assumes "0 < report_id r"
  shows "report_id r \<noteq> (case excludeId of None \<Rightarrow> - 1 | Some e \<Rightarrow> if e = 0 then - 1 else e)
         \<longleftrightarrow> Some (report_id r) \<noteq> excludeId"
  using assms by (cases excludeId) auto

text \<open>
  What the geo query returns on a table with positive ids: the candidates of the
  specification whose distance the doubles do not turn into NaN, each with its
  distance, most recent first.
\<close>

lemma findNearbyReports_returns:
  assumes "\<forall>r\<in>set (rows s). 0 < report_id r"
  shows "\<exists>cs. findNearbyReports ro False s lat lon radiusMeters excludeId = Some cs \<and>
           mset (map row cs) =
             filter_mset (\<lambda>r. spec_candidate lat lon radiusMeters excludeId r \<and>
                               \<not> ro lat lon (latitude r) (longitude r)) (mset (rows s)) \<and>
           (\<forall>c\<in>set cs. distance c =
                          Some (spec_distance lat lon (latitude (row c)) (longitude (row c)))) \<and>
           sorted_wrt (\<lambda>a b. created_at (row b) \<le> created_at (row a)) cs"
proof -
  let ?param = "case excludeId of None \<Rightarrow> - 1 | Some e \<Rightarrow> if e = 0 then - 1 else e"
  let ?near = "\<lambda>r. js_le (calculateDistance ro lat lon (latitude r) (longitude r)) radiusMeters"
  let ?attach = "\<lambda>r. \<lparr>row = r, distance = calculateDistance ro lat lon (latitude r) (longitude r)\<rparr>"
  let ?cs = "map ?attach (filter ?near (select_active s ?param))"
  have res: "findNearbyReports ro False s lat lon radiusMeters excludeId = Some ?cs"
    by (simp add: findNearbyReports_def Let_def)
  have rows: "map row ?cs = filter ?near (select_active s ?param)"
    by (simp add: comp_def)
  have "mset (map row ?cs) =
          filter_mset (\<lambda>r. (is_primary r \<and> (status r = Pending \<or> status r = Verified) \<and>
                             report_id r \<noteq> ?param) \<and> ?near r) (mset (rows s))"
    unfolding rows by (simp add: select_active_mset filter_filter_mset conj_commute)
  also have "\<dots> = filter_mset (\<lambda>r. spec_candidate lat lon radiusMeters excludeId r \<and>
                               \<not> ro lat lon (latitude r) (longitude r)) (mset (rows s))"
  proof (rule filter_mset_cong[OF refl])
    fix r assume "r \<in># mset (rows s)"
    then have "0 < report_id r" using assms by simp
    from positive_ids_param[OF this, of excludeId]
    show "((is_primary r \<and> (status r = Pending \<or> status r = Verified) \<and>
            report_id r \<noteq> ?param) \<and> ?near r) =
          (spec_candidate lat lon radiusMeters excludeId r \<and>
             \<not> ro lat lon (latitude r) (longitude r))"
      by (auto simp add: spec_candidate_def js_le_distance)
  qed
  finally have m: "mset (map row ?cs) =
      filter_mset (\<lambda>r. spec_candidate lat lon radiusMeters excludeId r \<and>
                               \<not> ro lat lon (latitude r) (longitude r)) (mset (rows s))" .
  have d: "\<forall>c\<in>set ?cs. distance c =
              Some (spec_distance lat lon (latitude (row c)) (longitude (row c)))"
    by (auto simp: calculateDistance_spec js_le_def)
  have "sorted_wrt (\<lambda>a b. created_at b \<le> created_at a) (filter ?near (select_active s ?param))"
    by (rule sorted_wrt_filter[OF select_active_sorted])
  then have o: "sorted_wrt (\<lambda>a b. created_at (row b) \<le> created_at (row a)) ?cs"
    by (simp add: sorted_wrt_map)
  from res m d o show ?thesis by blast
qed

section \<open>The similarity loop\<close>

text \<open>
  One step of the loop: a candidate that does not match is passed over, a candidate that
  matches ends the loop.
\<close>

lemma similarity_loop_skip:
  "\<not> is_match ex cmp c \<Longrightarrow>
   similarity_loop ex cmp (c # cs) =
     (fst (similarity_loop ex cmp cs),
      (if has_photo ex c then [nearby_id c] else []) @ snd (similarity_loop ex cmp cs))"
  by (auto simp: is_match_def has_photo_def nearby_id_def split: oracle_outcome.splits)

lemma similarity_loop_hit:
  "is_match ex cmp c \<Longrightarrow>
   fst (similarity_loop ex cmp (c # cs)) \<noteq> None \<and>
   primaryReportId (the (fst (similarity_loop ex cmp (c # cs)))) = nearby_id c \<and>
   dup_distance (the (fst (similarity_loop ex cmp (c # cs)))) = distance c \<and>
   snd (similarity_loop ex cmp (c # cs)) = [nearby_id c]"
  by (auto simp: is_match_def nearby_id_def split: oracle_outcome.splits)

lemma similarity_loop_prefix:
  assumes "\<forall>x\<in>set pre. \<not> is_match ex cmp x"
  shows "similarity_loop ex cmp (pre @ cs) =
           (fst (similarity_loop ex cmp cs),
            map nearby_id (filter (has_photo ex) pre) @ snd (similarity_loop ex cmp cs))"
  using assms
proof (induction pre)
  case Nil
  then show ?case by simp
next
  case (Cons x pre)
  then have x: "\<not> is_match ex cmp x" and pre: "\<forall>y\<in>set pre. \<not> is_match ex cmp y" by simp_all
  show ?case
    using similarity_loop_skip[OF x, of "pre @ cs"] Cons.IH[OF pre] by simp
qed

text \<open>
  Claim C2. Candidates are examined in the order of the list. When \<open>c\<close> is the
  first candidate that matches (photo on disk, score at least 80), the loop settles on
  \<open>c\<close> whatever follows it, and the comparisons made are exactly those for the
  candidates with a photo up to and including \<open>c\<close>: nothing after \<open>c\<close> is
  compared or chosen.
\<close>

theorem first_match_wins:
  assumes "\<forall>x\<in>set pre. \<not> is_match ex cmp x" and "is_match ex cmp c"
  shows "\<exists>info. similarity_loop ex cmp (pre @ c # post) =
                  (Some info, map nearby_id (filter (has_photo ex) pre) @ [nearby_id c]) \<and>
                primaryReportId info = nearby_id c"
proof -
  from similarity_loop_hit[OF assms(2), of post]
  obtain info where i: "fst (similarity_loop ex cmp (c # post)) = Some info"
    and p: "primaryReportId info = nearby_id c"
    and t: "snd (similarity_loop ex cmp (c # post)) = [nearby_id c]"
    by auto
  from similarity_loop_prefix[OF assms(1), of "c # post"] i t
  have "similarity_loop ex cmp (pre @ c # post) =
          (Some info, map nearby_id (filter (has_photo ex) pre) @ [nearby_id c])"
    by simp
  with p show ?thesis by blast
qed

text \<open>
  The loop finds a match exactly when some candidate matches, and the match it returns is
  a candidate.
\<close>

lemma similarity_loop_none:
  assumes "\<forall>x\<in>set cs. \<not> is_match ex cmp x"
  shows "fst (similarity_loop ex cmp cs) = None"
  using similarity_loop_prefix[OF assms, of "[]"] by simp

lemma similarity_loop_some:
  assumes "fst (similarity_loop ex cmp cs) = Some info"
  shows "\<exists>c\<in>set cs. is_match ex cmp c \<and> primaryReportId info = nearby_id c \<and>
           dup_distance info = distance c"
  using assms
proof (induction cs)
  case Nil
  then show ?case by simp
next
  case (Cons c cs)
  show ?case
  proof (cases "is_match ex cmp c")
    case True
    from similarity_loop_hit[OF True, of cs] Cons.prems True show ?thesis by auto
  next
    case False
    from similarity_loop_skip[OF False, of cs] Cons.prems
    have "fst (similarity_loop ex cmp cs) = Some info" by simp
    from Cons.IH[OF this] show ?thesis by auto
  qed
qed

text \<open>
  Candidates without a photo, or whose comparison threw, do not change the result.
\<close>

lemma unusable_no_match: "unusable ex cmp c \<Longrightarrow> \<not> is_match ex cmp c"
  by (auto simp: unusable_def is_match_def)

lemma similarity_loop_drop_unusable:
  "fst (similarity_loop ex cmp cs) =
   fst (similarity_loop ex cmp (filter (\<lambda>c. \<not> unusable ex cmp c) cs))"
proof (induction cs)
  case Nil
  then show ?case by simp
next
  case (Cons c cs)
  show ?case
  proof (cases "unusable ex cmp c")
    case True
    then show ?thesis
      using similarity_loop_skip[OF unusable_no_match[OF True], of cs] Cons.IH by simp
  next
    case False
    show ?thesis
    proof (cases "is_match ex cmp c")
      case True
      from similarity_loop_hit[OF True, of cs]
           similarity_loop_hit[OF True, of "filter (\<lambda>c. \<not> unusable ex cmp c) cs"]
      show ?thesis using False True
        by (auto simp: is_match_def nearby_id_def split: oracle_outcome.splits)
    next
      case nm: False
      from similarity_loop_skip[OF nm] Cons.IH False show ?thesis by simp
    qed
  qed
qed

section \<open>The outcomes of a submission\<close>

text \<open>
  Every candidate is a primary row of the table within the radius.
\<close>

lemma findNearbyReports_member:
  assumes "findNearbyReports ro err s lat lon radiusMeters excludeId = Some cs" and "c \<in> set cs"
  shows "row c \<in> set (rows s) \<and> is_primary (row c) \<and>
         (status (row c) = Pending \<or> status (row c) = Verified) \<and>
         distance c = Some (spec_distance lat lon (latitude (row c)) (longitude (row c))) \<and>
         spec_distance lat lon (latitude (row c)) (longitude (row c)) \<le> radiusMeters"
proof -
  let ?param = "case excludeId of None \<Rightarrow> - 1 | Some e \<Rightarrow> if e = 0 then - 1 else e"
  from assms(1) have cs: "cs =
      map (\<lambda>r. \<lparr>row = r, distance = calculateDistance ro lat lon (latitude r) (longitude r)\<rparr>)
        (filter (\<lambda>r. js_le (calculateDistance ro lat lon (latitude r) (longitude r)) radiusMeters)
           (select_active s ?param))"
    by (simp add: findNearbyReports_def Let_def split: if_splits)
  from assms(2) obtain r where r: "r \<in> set (select_active s ?param)"
    and near: "js_le (calculateDistance ro lat lon (latitude r) (longitude r)) radiusMeters"
    and c: "c = \<lparr>row = r, distance = calculateDistance ro lat lon (latitude r) (longitude r)\<rparr>"
    unfolding cs by auto
  from near have n: "\<not> ro lat lon (latitude r) (longitude r)"
    "spec_distance lat lon (latitude r) (longitude r) \<le> radiusMeters"
    by (simp_all add: js_le_distance)
  from r have "r \<in> set (rows s) \<and> is_primary r \<and> (status r = Pending \<or> status r = Verified)"
    by (auto simp: select_active_def)
  with c n show ?thesis by (simp add: calculateDistance_spec)
qed

text \<open>The three outcomes of a submission.\<close>

lemma post_report_cases:
  "(\<exists>code msg. post_report e req s = (Rejected code msg, s)) \<or>
   (\<exists>fname lat lon.
      post_report e req s =
        (Created (seq s + 1) False None, insert_row s (primary_row e fname lat lon (seq s + 1)))) \<or>
   (\<exists>fname lat lon info c.
      c \<in> set (rows s) \<and> is_primary c \<and> report_id c = primaryReportId info \<and>
      spec_distance lat lon (latitude c) (longitude c) \<le> 50 \<and>
      post_report e req s =
        (Created (seq s + 1) True (Some (primaryReportId info)),
         if updateErr e then insert_row s (duplicate_row e fname lat lon info (seq s + 1))
         else update_primary (insert_row s (duplicate_row e fname lat lon info (seq s + 1)))
                (primaryReportId info) (seq s + 1)))"
proof (cases "photo req")
  case None
  then show ?thesis by (simp add: post_report_def)
next
  case (Some fname)
  show ?thesis
  proof (cases "missing (latitude_field req) \<or> missing (longitude_field req)")
    case True
    then show ?thesis using Some by (auto simp add: post_report_def)
  next
    case False
    show ?thesis
    proof (cases "parseFloat e (the (latitude_field req))")
      case None
      then show ?thesis using Some False by (simp add: post_report_def)
    next
      case lat: (Some lat)
      show ?thesis
      proof (cases "parseFloat e (the (longitude_field req))")
        case None
        then show ?thesis using Some False lat by (simp add: post_report_def)
      next
        case lon: (Some lon)
        show ?thesis
        proof (cases "findNearbyReports (rounds_outside e) (selectErr e) s lat lon 50 None")
          case None
          then show ?thesis using Some False lat lon by (simp add: post_report_def)
        next
          case cs: (Some cs)
          show ?thesis
          proof (cases "fst (similarity_loop (existsSync e) (compare_with e) cs)")
            case None
            then show ?thesis using Some False lat lon cs
              by (auto simp add: post_report_def Let_def)
          next
            case info: (Some info)
            from similarity_loop_some[OF info] obtain c where
              c: "c \<in> set cs" "primaryReportId info = nearby_id c" by blast
            from findNearbyReports_member[OF cs c(1)] c(2)
            have r: "row c \<in> set (rows s)" "is_primary (row c)"
                    "report_id (row c) = primaryReportId info"
                    "spec_distance lat lon (latitude (row c)) (longitude (row c)) \<le> 50"
              by (auto simp: nearby_id_def)
            show ?thesis
            proof (cases "insertErr e")
              case True
              then show ?thesis using Some False lat lon cs info by (simp add: post_report_def)
            next
              case ok: False
              have "post_report e req s =
                (Created (seq s + 1) True (Some (primaryReportId info)),
                 if updateErr e then insert_row s (duplicate_row e fname lat lon info (seq s + 1))
                 else update_primary (insert_row s (duplicate_row e fname lat lon info (seq s + 1)))
                        (primaryReportId info) (seq s + 1))"
                using Some False lat lon cs info ok by (simp add: post_report_def Let_def)
              with r show ?thesis by blast
            qed
          qed
        qed
      qed
    qed
  qed
qed

section \<open>The merge counters\<close>

text \<open>
  Inserting under the next id and updating columns other than the id keep the ids well
  formed.
\<close>

lemma wf_store_empty: "wf_store empty_store"
  by (simp add: wf_store_def empty_store_def)

lemma at_most_mono: "at_most n x \<Longrightarrow> n \<le> m \<Longrightarrow> at_most m x"
  by (cases x) auto

lemma wf_store_insert:
  assumes "wf_store s" and "report_id r = seq s + 1"
    and "at_most (seq s) (duplicate_of r)"
  shows "wf_store (insert_row s r)"
proof -
  from assms(1) have ids: "\<forall>x\<in>set (rows s). report_id x \<le> seq s"
    by (auto simp: wf_store_def list_all_iff)
  then have fresh: "report_id r \<notin> report_id ` set (rows s)"
    using assms(2) by auto
  have "list_all (\<lambda>r. 0 < report_id r \<and> report_id r \<le> seq s + 1 \<and>
                    at_most (seq s + 1) (duplicate_of r)) (rows s)"
    using assms(1) by (auto simp: wf_store_def list_all_iff intro: at_most_mono)
  moreover have "0 < report_id r \<and> report_id r \<le> seq s + 1 \<and>
                    at_most (seq s + 1) (duplicate_of r)"
    using assms by (auto simp: wf_store_def intro: at_most_mono)
  ultimately show ?thesis
    using assms(1) fresh by (simp add: wf_store_def insert_row_def)
qed

lemma update_where_id_ids:
  assumes "\<And>r. report_id (f r) = report_id r"
  shows "map report_id (rows (update_where_id i f s)) = map report_id (rows s)"
  using assms by (simp add: update_where_id_def)

lemma update_where_id_seq: "seq (update_where_id i f s) = seq s"
  by (simp add: update_where_id_def)

lemma wf_store_update:
  assumes "wf_store s" and "\<And>r. report_id (f r) = report_id r"
    and "\<And>r. duplicate_of (f r) = duplicate_of r"
  shows "wf_store (update_where_id i f s)"
proof -
  let ?s' = "update_where_id i f s"
  have ids: "map report_id (rows ?s') = map report_id (rows s)"
    by (rule update_where_id_ids) (rule assms(2))
  have "list_all (\<lambda>r. 0 < report_id r \<and> report_id r \<le> seq s \<and>
                    at_most (seq s) (duplicate_of r)) (rows ?s')"
    using assms by (auto simp: wf_store_def list_all_iff update_where_id_def)
  then show ?thesis
    using assms(1) unfolding wf_store_def ids update_where_id_seq by simp
qed

text \<open>
  The reports that point to a given id: unchanged by an UPDATE that leaves
  \<^verbatim>\<open>duplicate_of\<close> alone, extended by an INSERT that points to it.
\<close>

lemma duplicates_of_update:
  assumes "\<And>r. duplicate_of (f r) = duplicate_of r"
  shows "length (duplicates_of (update_where_id i f s) k) = length (duplicates_of s k)"
proof -
  let ?h = "\<lambda>r. if report_id r = i then f r else r"
  have "\<And>r. duplicate_of (?h r) = duplicate_of r" using assms by simp
  then have "filter (\<lambda>d. duplicate_of d = Some k) (map ?h (rows s)) =
             map ?h (filter (\<lambda>d. duplicate_of d = Some k) (rows s))"
    by (simp add: filter_map comp_def)
  then show ?thesis by (simp add: duplicates_of_def update_where_id_def)
qed

lemma duplicates_of_insert:
  "duplicates_of (insert_row s r) k =
     duplicates_of s k @ (if duplicate_of r = Some k then [r] else [])"
  by (simp add: duplicates_of_def insert_row_def)

lemma get_report_member:
  assumes "distinct (map report_id (rows s))" and "r \<in> set (rows s)"
  shows "get_report s (report_id r) = Some r"
proof -
  have "\<And>xs. distinct (map report_id xs) \<Longrightarrow> r \<in> set xs \<Longrightarrow>
          find (\<lambda>x. report_id x = report_id r) xs = Some r"
  proof -
    fix xs show "distinct (map report_id xs) \<Longrightarrow> r \<in> set xs \<Longrightarrow>
          find (\<lambda>x. report_id x = report_id r) xs = Some r"
      by (induction xs) (auto simp: image_iff)
  qed
  from this[OF assms] show ?thesis by (simp add: get_report_def)
qed

lemma get_report_Some:
  "get_report s i = Some r \<Longrightarrow> r \<in> set (rows s) \<and> report_id r = i"
  unfolding get_report_def by (auto simp: find_Some_iff)

text \<open>A status change touches none of the merge columns.\<close>

lemma bookkeeping_update:
  assumes "bookkeeping s" and "\<And>r. report_id (f r) = report_id r"
    and "\<And>r. duplicate_of (f r) = duplicate_of r"
    and "\<And>r. is_primary (f r) = is_primary r"
    and "\<And>r. duplicate_count (f r) = duplicate_count r"
    and "\<And>r. merged_reports (f r) = merged_reports r"
  shows "bookkeeping (update_where_id i f s)"
proof -
  let ?s' = "update_where_id i f s"
  have wf: "wf_store ?s'" using assms(1-3) wf_store_update by (simp add: bookkeeping_def)
  have "\<not> is_primary p' \<or> counts_agree ?s' p'" if "p' \<in> set (rows ?s')" for p'
  proof -
    from that obtain p where p: "p \<in> set (rows s)" and p': "p' = (if report_id p = i then f p else p)"
      by (auto simp: update_where_id_def)
    from assms(1) p have old: "\<not> is_primary p \<or> counts_agree s p"
      by (simp add: bookkeeping_def list_all_iff)
    have same: "is_primary p' = is_primary p" "report_id p' = report_id p"
      "duplicate_count p' = duplicate_count p" "merged_list p' = merged_list p"
      using p' assms(2-6) by (simp_all add: merged_list_def)
    show ?thesis
      using old same duplicates_of_update[of f i s "report_id p", OF assms(3)]
      by (auto simp: counts_agree_def)
  qed
  with wf show ?thesis by (simp add: bookkeeping_def list_all_iff)
qed

text \<open>
  A new primary report starts with count 1 and nothing points to its fresh id; a new
  duplicate and the UPDATE of its primary move count, merged ids and pointing reports
  together.
\<close>

lemma bookkeeping_primary:
  assumes "bookkeeping s"
  shows "bookkeeping (insert_row s (primary_row e fname lat lon (seq s + 1)))"
proof -
  let ?n = "primary_row e fname lat lon (seq s + 1)"
  let ?s' = "insert_row s ?n"
  from assms have wfs: "wf_store s" by (simp add: bookkeeping_def)
  have wf: "wf_store ?s'"
    by (rule wf_store_insert[OF wfs]) (simp_all add: primary_row_def)
  have dn: "duplicates_of ?s' k = duplicates_of s k" for k
    by (simp add: duplicates_of_insert primary_row_def)
  have none: "duplicates_of s (seq s + 1) = []"
    using wfs by (fastforce simp: duplicates_of_def wf_store_def list_all_iff filter_empty_conv)
  have new: "counts_agree ?s' ?n"
    unfolding counts_agree_def dn by (simp add: primary_row_def merged_list_def none)
  have old: "\<not> is_primary p \<or> counts_agree ?s' p" if "p \<in> set (rows s)" for p
    using assms that unfolding counts_agree_def dn
    by (auto simp: bookkeeping_def list_all_iff counts_agree_def)
  from wf new old show ?thesis
    by (auto simp: bookkeeping_def list_all_iff insert_row_def)
qed

lemma bookkeeping_duplicate:
  assumes "bookkeeping s" and "c \<in> set (rows s)" and "report_id c = primaryReportId info"
  shows "bookkeeping (update_primary (insert_row s (duplicate_row e fname lat lon info (seq s + 1)))
            (primaryReportId info) (seq s + 1))"
proof -
  let ?pid = "primaryReportId info"
  let ?n = "seq s + 1"
  let ?d = "duplicate_row e fname lat lon info ?n"
  let ?s1 = "insert_row s ?d"
  let ?s2 = "update_primary ?s1 ?pid ?n"
  from assms(1) have wfs: "wf_store s" by (simp add: bookkeeping_def)
  from wfs assms(2,3) have pid: "0 < ?pid" "?pid \<le> seq s"
    by (auto simp: wf_store_def list_all_iff)
  have wf1: "wf_store ?s1"
    by (rule wf_store_insert[OF wfs]) (simp_all add: duplicate_row_def pid)
  have wf2: "wf_store ?s2"
    unfolding update_primary_def
    by (rule wf_store_update[OF wf1]) (simp_all add: merge_into_def)
  have len2: "length (duplicates_of ?s2 k) = length (duplicates_of ?s1 k)" for k
    unfolding update_primary_def
    by (rule duplicates_of_update) (simp add: merge_into_def)
  have len1: "length (duplicates_of ?s1 k) =
                length (duplicates_of s k) + (if k = ?pid then 1 else 0)" for k
    by (auto simp add: duplicates_of_insert duplicate_row_def)
  let ?h = "\<lambda>r. if report_id r = ?pid then merge_into ?n r else r"
  have rows2: "rows ?s2 = map ?h (rows s) @ [?d]"
    using pid by (simp add: update_primary_def update_where_id_def insert_row_def duplicate_row_def)
  have dup: "\<not> is_primary ?d" by (simp add: duplicate_row_def)
  have old: "\<not> is_primary (?h p) \<or> counts_agree ?s2 (?h p)" if "p \<in> set (rows s)" for p
  proof -
    from assms(1) that have o: "\<not> is_primary p \<or> counts_agree s p"
      by (simp add: bookkeeping_def list_all_iff)
    show ?thesis
    proof (cases "report_id p = ?pid")
      case True
      then have "?h p = merge_into ?n p" by simp
      then have "is_primary (?h p) = is_primary p" "report_id (?h p) = ?pid"
        "duplicate_count (?h p) = duplicate_count p + 1"
        "merged_list (?h p) = merged_list p @ [?n]"
        using True by (simp_all add: merge_into_def merged_list_def split: option.splits)
      then show ?thesis using o True len1[of ?pid] len2[of ?pid]
        by (auto simp: counts_agree_def)
    next
      case False
      then have "?h p = p" by simp
      then show ?thesis using o False len1[of "report_id p"] len2[of "report_id p"]
        by (auto simp: counts_agree_def)
    qed
  qed
  have "\<not> is_primary p' \<or> counts_agree ?s2 p'" if "p' \<in> set (rows ?s2)" for p'
  proof -
    from that have "p' = ?d \<or> (\<exists>p\<in>set (rows s). p' = ?h p)"
      unfolding rows2 by auto
    then show ?thesis using old dup by blast
  qed
  with wf2 show ?thesis by (simp add: bookkeeping_def list_all_iff)
qed

lemma bookkeeping_post_report:
  assumes "bookkeeping s" and "\<not> updateErr e"
  shows "bookkeeping (snd (post_report e req s))"
proof -
  from post_report_cases[of e req s] consider
    (rejected) "snd (post_report e req s) = s"
  | (primary) fname lat lon where
      "snd (post_report e req s) = insert_row s (primary_row e fname lat lon (seq s + 1))"
  | (duplicate) fname lat lon info c where
      "c \<in> set (rows s)" "report_id c = primaryReportId info"
      "snd (post_report e req s) =
         update_primary (insert_row s (duplicate_row e fname lat lon info (seq s + 1)))
           (primaryReportId info) (seq s + 1)"
    using assms(2) by fastforce
  then show ?thesis
  proof cases
    case rejected
    then show ?thesis using assms(1) by simp
  next
    case primary
    then show ?thesis using bookkeeping_primary[OF assms(1)] by simp
  next
    case duplicate
    then show ?thesis using bookkeeping_duplicate[OF assms(1) duplicate(1,2)] by simp
  qed
qed

lemma bookkeeping_patch_report:
  assumes "bookkeeping s"
  shows "bookkeeping (snd (patch_report pe i body_status s))"
proof -
  have "snd (patch_report pe i body_status s) = s \<or>
        (\<exists>st. snd (patch_report pe i body_status s) =
               update_where_id i (set_status st (patch_txHash pe) (patch_now pe)) s)"
    by (auto simp: patch_report_def split: option.splits)
  moreover have "bookkeeping (update_where_id i (set_status st tx t) s)" for st tx t
    by (rule bookkeeping_update[OF assms]) (simp_all add: set_status_def)
  ultimately show ?thesis using assms by auto
qed

lemma bookkeeping_post_resolve:
  assumes "bookkeeping s"
  shows "bookkeeping (snd (post_resolve re i fname s))"
proof -
  have "snd (post_resolve re i fname s) = s \<or>
        (\<exists>f. snd (post_resolve re i fname s) =
               update_where_id i (set_resolved f (resolve_now re)) s)"
    by (auto simp: post_resolve_def split: option.splits)
  moreover have "bookkeeping (update_where_id i (set_resolved f t) s)" for f t
    by (rule bookkeeping_update[OF assms]) (simp_all add: set_resolved_def)
  ultimately show ?thesis using assms by auto
qed

text \<open>The shape of the ids is kept by every handler, whatever the environment.\<close>

lemma wf_store_post_report:
  assumes "wf_store s"
  shows "wf_store (snd (post_report e req s))"
proof -
  from post_report_cases[of e req s] consider
    (rejected) "snd (post_report e req s) = s"
  | (primary) fname lat lon where
      "snd (post_report e req s) = insert_row s (primary_row e fname lat lon (seq s + 1))"
  | (duplicate) fname lat lon info c where
      "c \<in> set (rows s)" "report_id c = primaryReportId info"
      "snd (post_report e req s) =
         (if updateErr e then insert_row s (duplicate_row e fname lat lon info (seq s + 1))
          else update_primary (insert_row s (duplicate_row e fname lat lon info (seq s + 1)))
                 (primaryReportId info) (seq s + 1))"
    by fastforce
  then show ?thesis
  proof cases
    case rejected
    then show ?thesis using assms by simp
  next
    case primary
    have "wf_store (insert_row s (primary_row e fname lat lon (seq s + 1)))"
      by (rule wf_store_insert[OF assms]) (simp_all add: primary_row_def)
    then show ?thesis using primary by simp
  next
    case duplicate
    from assms duplicate(1,2) have pid: "primaryReportId info \<le> seq s"
      by (auto simp: wf_store_def list_all_iff)
    have w1: "wf_store (insert_row s (duplicate_row e fname lat lon info (seq s + 1)))"
      by (rule wf_store_insert[OF assms]) (simp_all add: duplicate_row_def pid)
    have "wf_store (update_primary (insert_row s (duplicate_row e fname lat lon info (seq s + 1)))
            (primaryReportId info) (seq s + 1))"
      unfolding update_primary_def
      by (rule wf_store_update[OF w1]) (simp_all add: merge_into_def)
    with w1 show ?thesis using duplicate(3) by simp
  qed
qed

lemma wf_store_patch_report:
  assumes "wf_store s"
  shows "wf_store (snd (patch_report pe i body_status s))"
proof -
  have "snd (patch_report pe i body_status s) = s \<or>
        (\<exists>st. snd (patch_report pe i body_status s) =
               update_where_id i (set_status st (patch_txHash pe) (patch_now pe)) s)"
    by (auto simp: patch_report_def split: option.splits)
  moreover have "wf_store (update_where_id i (set_status st tx t) s)" for st tx t
    by (rule wf_store_update[OF assms]) (simp_all add: set_status_def)
  ultimately show ?thesis using assms by auto
qed

lemma wf_store_post_resolve:
  assumes "wf_store s"
  shows "wf_store (snd (post_resolve re i fname s))"
proof -
  have "snd (post_resolve re i fname s) = s \<or>
        (\<exists>f. snd (post_resolve re i fname s) =
               update_where_id i (set_resolved f (resolve_now re)) s)"
    by (auto simp: post_resolve_def split: option.splits)
  moreover have "wf_store (update_where_id i (set_resolved f t) s)" for f t
    by (rule wf_store_update[OF assms]) (simp_all add: set_resolved_def)
  ultimately show ?thesis using assms by auto
qed

lemma reachable_bookkeeping: "reachable s \<Longrightarrow> bookkeeping s"
proof (induction rule: reachable.induct)
  case start
  show ?case by (simp add: bookkeeping_def wf_store_empty) (simp add: empty_store_def)
next
  case (submit s e req)
  then show ?case by (simp add: bookkeeping_post_report)
next
  case (set_status s pe i body_status)
  then show ?case by (simp add: bookkeeping_patch_report)
next
  case (resolve s re i fname)
  then show ?case by (simp add: bookkeeping_post_resolve)
qed

text \<open>
  As long as no UPDATE of a primary has failed, every primary report of a reachable
  store has a count of one plus the number of its merged ids, and as many merged ids
  as there are reports pointing to it.
\<close>

lemma duplicate_count_invariant:
  assumes "reachable s" and "p \<in> set (rows s)" and "is_primary p"
  shows "duplicate_count p = 1 + int (length (merged_list p)) \<and>
         length (merged_list p) = length (duplicates_of s (report_id p))"
  using reachable_bookkeeping[OF assms(1)] assms(2,3)
  by (auto simp: bookkeeping_def list_all_iff counts_agree_def)

section \<open>Bookkeeping of one submission\<close>

text \<open>
  The loop returns the first matching candidate.
\<close>

lemma similarity_loop_find:
  "map_option primaryReportId (fst (similarity_loop ex cmp cs)) =
   map_option nearby_id (find (is_match ex cmp) cs)"
proof (induction cs)
  case Nil
  then show ?case by simp
next
  case (Cons c cs)
  show ?case
  proof (cases "is_match ex cmp c")
    case True
    from similarity_loop_hit[OF True, of cs] True show ?thesis by auto
  next
    case False
    from similarity_loop_skip[OF False, of cs] False Cons.IH show ?thesis by simp
  qed
qed

text \<open>
  Reading a report back after an INSERT and after an UPDATE.
\<close>

lemma find_rows_append:
  assumes "\<forall>x\<in>set xs. report_id x \<noteq> i"
  shows "find (\<lambda>r. report_id r = i) (xs @ ys) = find (\<lambda>r. report_id r = i) ys"
  using assms by (induction xs) auto

lemma find_rows_append_old:
  assumes "\<forall>y\<in>set ys. report_id y \<noteq> i"
  shows "find (\<lambda>r. report_id r = i) (xs @ ys) = find (\<lambda>r. report_id r = i) xs"
  using assms by (induction xs) (auto simp: find_None_iff)

lemma get_report_insert_new:
  assumes "wf_store s" and "report_id r = seq s + 1"
  shows "get_report (insert_row s r) (seq s + 1) = Some r"
proof -
  have "\<forall>x\<in>set (rows s). report_id x \<noteq> seq s + 1"
    using assms(1) by (fastforce simp: wf_store_def list_all_iff)
  from find_rows_append[OF this, of "[r]"] assms(2) show ?thesis
    by (simp add: get_report_def insert_row_def)
qed

lemma get_report_insert_old:
  assumes "report_id r \<noteq> i"
  shows "get_report (insert_row s r) i = get_report s i"
  using find_rows_append_old[of "[r]" i "rows s"] assms
  by (simp add: get_report_def insert_row_def)

lemma get_report_update:
  assumes "\<And>r. report_id (f r) = report_id r"
  shows "get_report (update_where_id i f s) k =
           map_option (\<lambda>r. if report_id r = i then f r else r) (get_report s k)"
proof -
  have "find (\<lambda>r. report_id r = k) (map (\<lambda>r. if report_id r = i then f r else r) xs) =
        map_option (\<lambda>r. if report_id r = i then f r else r) (find (\<lambda>r. report_id r = k) xs)" for xs
    by (induction xs) (auto simp: assms)
  then show ?thesis by (simp add: get_report_def update_where_id_def)
qed

text \<open>
  An accepted submission takes one of the two INSERT branches.
\<close>

lemma candidates_member:
  assumes "c \<in> set (candidates e req s)"
  shows "row c \<in> set (rows s) \<and> is_primary (row c)"
proof (cases "findNearbyReports (rounds_outside e) False s
             (the (parseFloat e (the (latitude_field req))))
             (the (parseFloat e (the (longitude_field req)))) 50 None")
  case None
  with assms show ?thesis by (simp add: candidates_def)
next
  case (Some cs)
  with assms have "c \<in> set cs" by (simp add: candidates_def)
  from findNearbyReports_member[OF Some this] show ?thesis by simp
qed

lemma served_post_report:
  assumes "served e req"
  shows "post_report e req s =
     (case fst (similarity_loop (existsSync e) (compare_with e) (candidates e req s)) of
        Some info \<Rightarrow>
          (Created (seq s + 1) True (Some (primaryReportId info)),
           if updateErr e
           then insert_row s (duplicate_row e (the (photo req))
                  (the (parseFloat e (the (latitude_field req))))
                  (the (parseFloat e (the (longitude_field req)))) info (seq s + 1))
           else update_primary
             (insert_row s (duplicate_row e (the (photo req))
                (the (parseFloat e (the (latitude_field req))))
                (the (parseFloat e (the (longitude_field req)))) info (seq s + 1)))
             (primaryReportId info) (seq s + 1))
      | None \<Rightarrow>
          (Created (seq s + 1) False None,
           insert_row s (primary_row e (the (photo req))
                (the (parseFloat e (the (latitude_field req))))
                (the (parseFloat e (the (longitude_field req)))) (seq s + 1))))"
proof -
  from assms obtain fname lat lon where
    f: "photo req = Some fname" and
    la: "parseFloat e (the (latitude_field req)) = Some lat" and
    lo: "parseFloat e (the (longitude_field req)) = Some lon"
    by (auto simp: served_def)
  from assms have m: "\<not> missing (latitude_field req)" "\<not> missing (longitude_field req)"
    and ok: "\<not> selectErr e" "\<not> insertErr e"
    by (simp_all add: served_def)
  obtain cs where cs: "findNearbyReports (rounds_outside e) False s lat lon 50 None = Some cs"
    by (simp add: findNearbyReports_def)
  then have c: "candidates e req s = cs" by (simp add: candidates_def la lo)
  show ?thesis
    unfolding c using f la lo m ok cs
    by (simp add: post_report_def Let_def split: option.splits)
qed

lemma accepted_post_report:
  assumes "accepted e req"
  shows "post_report e req s =
     (case fst (similarity_loop (existsSync e) (compare_with e) (candidates e req s)) of
        Some info \<Rightarrow>
          (Created (seq s + 1) True (Some (primaryReportId info)),
           update_primary
             (insert_row s (duplicate_row e (the (photo req))
                (the (parseFloat e (the (latitude_field req))))
                (the (parseFloat e (the (longitude_field req)))) info (seq s + 1)))
             (primaryReportId info) (seq s + 1))
      | None \<Rightarrow>
          (Created (seq s + 1) False None,
           insert_row s (primary_row e (the (photo req))
                (the (parseFloat e (the (latitude_field req))))
                (the (parseFloat e (the (longitude_field req)))) (seq s + 1))))"
proof -
  from assms have s: "served e req" and u: "\<not> updateErr e" by (simp_all add: accepted_def)
  show ?thesis unfolding served_post_report[OF s] using u by (simp split: option.splits)
qed

text \<open>
  A submission answered with 201 was served.
\<close>

lemma not_served_rejected:
  assumes "\<not> served e req"
  shows "\<exists>code msg. post_report e req s = (Rejected code msg, s)"
proof (cases "photo req")
  case None
  then show ?thesis by (simp add: post_report_def)
next
  case (Some fname)
  show ?thesis
  proof (cases "missing (latitude_field req) \<or> missing (longitude_field req)")
    case True
    then show ?thesis using Some by (auto simp add: post_report_def)
  next
    case False
    show ?thesis
    proof (cases "parseFloat e (the (latitude_field req))")
      case None
      then show ?thesis using Some False by (simp add: post_report_def)
    next
      case lat: (Some lat)
      show ?thesis
      proof (cases "parseFloat e (the (longitude_field req))")
        case None
        then show ?thesis using Some False lat by (simp add: post_report_def)
      next
        case lon: (Some lon)
        from assms Some False lat lon have err: "selectErr e \<or> insertErr e"
          by (auto simp: served_def)
        show ?thesis
        proof (cases "selectErr e")
          case True
          then show ?thesis using Some False lat lon
            by (simp add: post_report_def findNearbyReports_def)
        next
          case ok: False
          with err have ins: "insertErr e" by simp
          obtain cs where cs: "findNearbyReports (rounds_outside e) (selectErr e) s lat lon 50 None = Some cs"
            using ok by (simp add: findNearbyReports_def)
          show ?thesis using Some False lat lon cs ins
            by (simp add: post_report_def split: option.splits)
        qed
      qed
    qed
  qed
qed

lemma created_served:
  assumes "post_report e req s = (Created n dup prim, s')"
  shows "served e req"
  using not_served_rejected[of e req s] assms by auto

text \<open>
  An accepted submission is stored under a new id; if a candidate matches, the new
  report is not primary and points to the first matching candidate, a primary report
  whose count goes up by exactly one and whose merged ids get the new id appended; if
  none matches, the new report is primary with count 1 and no merged ids.
\<close>

lemma submission_bookkeeping:
  assumes "wf_store s" and "accepted e req"
  shows "\<exists>n dup prim s' new.
           post_report e req s = (Created n dup prim, s') \<and> get_report s' n = Some new \<and>
           (case first_match e req s of
              Some c \<Rightarrow>
                dup \<and> prim = Some (nearby_id c) \<and>
                \<not> is_primary new \<and> duplicate_of new = Some (nearby_id c) \<and>
                (\<exists>p p'. get_report s (nearby_id c) = Some p \<and> is_primary p \<and>
                         get_report s' (nearby_id c) = Some p' \<and>
                         duplicate_count p' = duplicate_count p + 1 \<and>
                         merged_list p' = merged_list p @ [n])
            | None \<Rightarrow>
                \<not> dup \<and> prim = None \<and> is_primary new \<and> duplicate_of new = None \<and>
                duplicate_count new = 1 \<and> merged_list new = [])"
proof -
  let ?n = "seq s + 1"
  let ?f = "the (photo req)"
  let ?lat = "the (parseFloat e (the (latitude_field req)))"
  let ?lon = "the (parseFloat e (the (longitude_field req)))"
  let ?loop = "fst (similarity_loop (existsSync e) (compare_with e) (candidates e req s))"
  have link: "map_option primaryReportId ?loop = map_option nearby_id (first_match e req s)"
    unfolding first_match_def by (rule similarity_loop_find)
  show ?thesis
  proof (cases ?loop)
    case None
    with link have fm: "first_match e req s = None" by simp
    let ?new = "primary_row e ?f ?lat ?lon ?n"
    have "post_report e req s = (Created ?n False None, insert_row s ?new)"
      using accepted_post_report[OF assms(2), of s] None by simp
    moreover have "get_report (insert_row s ?new) ?n = Some ?new"
      by (rule get_report_insert_new[OF assms(1)]) (simp add: primary_row_def)
    moreover have "is_primary ?new \<and> duplicate_of ?new = None \<and>
                duplicate_count ?new = 1 \<and> merged_list ?new = []"
      by (simp add: primary_row_def merged_list_def)
    ultimately show ?thesis
      using fm
      by (intro exI[of _ ?n] exI[of _ False] exI[of _ None] exI[of _ "insert_row s ?new"]
            exI[of _ ?new]) simp
  next
    case (Some info)
    with link have "map_option nearby_id (first_match e req s) = Some (primaryReportId info)"
      by simp
    then obtain c where fm: "first_match e req s = Some c"
      and pid: "primaryReportId info = nearby_id c" by (auto simp: map_option_eq_Some)
    from fm have cin: "c \<in> set (candidates e req s)"
      unfolding first_match_def by (auto simp: find_Some_iff)
    from candidates_member[OF this]
    have rc: "row c \<in> set (rows s)" and prim: "is_primary (row c)" by simp_all
    from assms(1) have dist: "distinct (map report_id (rows s))" by (simp add: wf_store_def)
    from get_report_member[OF dist rc]
    have old: "get_report s (nearby_id c) = Some (row c)" by (simp add: nearby_id_def)
    from assms(1) rc have le: "nearby_id c \<le> seq s"
      by (auto simp: wf_store_def list_all_iff nearby_id_def)
    let ?new = "duplicate_row e ?f ?lat ?lon info ?n"
    let ?s1 = "insert_row s ?new"
    let ?s2 = "update_primary ?s1 (nearby_id c) ?n"
    have res: "post_report e req s = (Created ?n True (Some (nearby_id c)), ?s2)"
      using accepted_post_report[OF assms(2), of s] Some pid by simp
    have idn: "report_id ?new = ?n" by (simp add: duplicate_row_def)
    have g1: "get_report ?s1 ?n = Some ?new"
      by (rule get_report_insert_new[OF assms(1) idn])
    have g2: "get_report ?s1 (nearby_id c) = Some (row c)"
      using get_report_insert_old[of ?new "nearby_id c" s] idn le old by simp
    have upd: "get_report ?s2 k =
        map_option (\<lambda>r. if report_id r = nearby_id c then merge_into ?n r else r)
          (get_report ?s1 k)" for k
      unfolding update_primary_def
      by (rule get_report_update) (simp add: merge_into_def)
    have new: "get_report ?s2 ?n = Some ?new"
      using upd[of ?n] g1 idn le by simp
    have p': "get_report ?s2 (nearby_id c) = Some (merge_into ?n (row c))"
      using upd[of "nearby_id c"] g2 by (simp add: nearby_id_def)
    have merged: "duplicate_count (merge_into ?n (row c)) = duplicate_count (row c) + 1"
      "merged_list (merge_into ?n (row c)) = merged_list (row c) @ [?n]"
      by (simp_all add: merge_into_def merged_list_def split: option.splits)
    have "\<not> is_primary ?new \<and> duplicate_of ?new = Some (nearby_id c)"
      by (simp add: duplicate_row_def pid)
    with res new old prim p' merged fm show ?thesis
      by (intro exI[of _ ?n] exI[of _ True] exI[of _ "Some (nearby_id c)"] exI[of _ ?s2]
            exI[of _ ?new]) simp
  qed
qed


section \<open>Oracle failures and status updates\<close>

lemma find_filter_implied:
  assumes "\<And>x. P x \<Longrightarrow> Q x"
  shows "find P (filter Q xs) = find P xs"
  using assms by (induction xs) auto

lemma first_usable_match:
  "find (is_match ex cmp) (filter (\<lambda>c. \<not> unusable ex cmp c) cs) = find (is_match ex cmp) cs"
  by (rule find_filter_implied) (auto simp: unusable_def is_match_def)

lemma similarity_loop_unusable:
  assumes "unusable ex cmp c"
  shows "similarity_loop ex cmp (c # rest) =
           (fst (similarity_loop ex cmp rest),
            (if has_photo ex c then [nearby_id c] else []) @ snd (similarity_loop ex cmp rest))"
  by (rule similarity_loop_skip[OF unusable_no_match[OF assms]])

text \<open>
  Claim C6. A served submission is answered with 201 and stored under a new id, as a
  duplicate of the first match among the candidates that can be compared (photo on
  disk, comparison returned) and as a primary report when there is none, whatever the
  file system and the comparison do for the other candidates. In the loop, a candidate
  whose photo is missing or whose comparison threw is passed over and the loop goes on
  with the candidates after it.
\<close>

theorem oracle_failure_is_non_match:
  assumes "wf_store s" and "served e req"
  shows "(\<exists>n prim s' new.
            post_report e req s = (Created n (prim \<noteq> None) prim, s') \<and>
            get_report s' n = Some new \<and>
            is_primary new = (prim = None) \<and> duplicate_of new = prim \<and>
            prim = map_option nearby_id
                     (find (is_match (existsSync e) (compare_with e))
                        (filter (\<lambda>c. \<not> unusable (existsSync e) (compare_with e) c)
                           (candidates e req s)))) \<and>
         (\<forall>c rest. unusable ex cmp c \<longrightarrow>
            similarity_loop ex cmp (c # rest) =
              (fst (similarity_loop ex cmp rest),
               (if has_photo ex c then [nearby_id c] else []) @
                 snd (similarity_loop ex cmp rest)))"
proof
  let ?n = "seq s + 1"
  let ?f = "the (photo req)"
  let ?lat = "the (parseFloat e (the (latitude_field req)))"
  let ?lon = "the (parseFloat e (the (longitude_field req)))"
  let ?cs = "candidates e req s"
  let ?loop = "fst (similarity_loop (existsSync e) (compare_with e) ?cs)"
  let ?usable = "filter (\<lambda>c. \<not> unusable (existsSync e) (compare_with e) c) ?cs"
  have link: "map_option primaryReportId ?loop =
              map_option nearby_id (find (is_match (existsSync e) (compare_with e)) ?usable)"
    unfolding first_usable_match by (rule similarity_loop_find)
  show "\<exists>n prim s' new.
            post_report e req s = (Created n (prim \<noteq> None) prim, s') \<and>
            get_report s' n = Some new \<and>
            is_primary new = (prim = None) \<and> duplicate_of new = prim \<and>
            prim = map_option nearby_id
                     (find (is_match (existsSync e) (compare_with e)) ?usable)"
  proof (cases ?loop)
    case None
    let ?new = "primary_row e ?f ?lat ?lon ?n"
    have "post_report e req s = (Created ?n False None, insert_row s ?new)"
      using served_post_report[OF assms(2), of s] None by simp
    moreover have "get_report (insert_row s ?new) ?n = Some ?new"
      by (rule get_report_insert_new[OF assms(1)]) (simp add: primary_row_def)
    moreover have "is_primary ?new \<and> duplicate_of ?new = None"
      by (simp add: primary_row_def)
    moreover have "None = map_option nearby_id
                     (find (is_match (existsSync e) (compare_with e)) ?usable)"
      using link None by simp
    ultimately show ?thesis
      by (intro exI[of _ ?n] exI[of _ None] exI[of _ "insert_row s ?new"] exI[of _ ?new])
        simp
  next
    case (Some info)
    let ?pid = "primaryReportId info"
    let ?new = "duplicate_row e ?f ?lat ?lon info ?n"
    let ?s1 = "insert_row s ?new"
    let ?s' = "if updateErr e then ?s1 else update_primary ?s1 ?pid ?n"
    from similarity_loop_some[OF Some] obtain c where
      c: "c \<in> set ?cs" and pid: "?pid = nearby_id c" by blast
    from candidates_member[OF c] assms(1) pid have le: "?pid \<le> seq s"
      by (auto simp: wf_store_def list_all_iff nearby_id_def)
    have res: "post_report e req s = (Created ?n True (Some ?pid), ?s')"
      using served_post_report[OF assms(2), of s] Some by simp
    have idn: "report_id ?new = ?n" by (simp add: duplicate_row_def)
    have g1: "get_report ?s1 ?n = Some ?new"
      by (rule get_report_insert_new[OF assms(1) idn])
    have "get_report (update_primary ?s1 ?pid ?n) ?n =
        map_option (\<lambda>r. if report_id r = ?pid then merge_into ?n r else r) (get_report ?s1 ?n)"
      unfolding update_primary_def
      by (rule get_report_update) (simp add: merge_into_def)
    with g1 idn le have "get_report (update_primary ?s1 ?pid ?n) ?n = Some ?new" by simp
    with g1 have g: "get_report ?s' ?n = Some ?new" by simp
    have f1: "post_report e req s = (Created ?n (Some ?pid \<noteq> None) (Some ?pid), ?s')"
      using res by simp
    have f3: "is_primary ?new = (Some ?pid = None)"
      by (simp add: duplicate_row_def)
    have f4: "duplicate_of ?new = Some ?pid"
      by (simp add: duplicate_row_def)
    have eq: "Some ?pid = map_option nearby_id
                     (find (is_match (existsSync e) (compare_with e)) ?usable)"
      using link Some by simp
    show ?thesis
      by (intro exI[of _ ?n] exI[of _ "Some ?pid"] exI[of _ ?s'] exI[of _ ?new] conjI
            f1 g f3 f4 eq)
  qed
  show "\<forall>c rest. unusable ex cmp c \<longrightarrow>
            similarity_loop ex cmp (c # rest) =
              (fst (similarity_loop ex cmp rest),
               (if has_photo ex c then [nearby_id c] else []) @
                 snd (similarity_loop ex cmp rest))"
    using similarity_loop_unusable by blast
qed

lemma set_status_id: "report_id (set_status st tx t r) = report_id r"
  by (simp add: set_status_def)

lemma set_resolved_id: "report_id (set_resolved f t r) = report_id r"
  by (simp add: set_resolved_def)

lemma patch_report_found:
  assumes "get_report s i = Some r" and "\<not> patch_getErr pe" and "\<not> patch_updateErr pe"
    and "parse_status v = Some st" and "v \<noteq> []"
  shows "patch_report pe i (Some v) s =
           (Updated (st = Resolved),
            update_where_id i (set_status st (patch_txHash pe) (patch_now pe)) s)"
  using assms by (simp add: patch_report_def missing_def)

lemma post_resolve_found:
  assumes "get_report s i = Some r" and "\<not> resolve_getErr re" and "\<not> resolve_updateErr re"
  shows "post_resolve re i (Some f) s =
           (ResolutionSaved (\<not> verifyResolution_throws re),
            update_where_id i (set_resolved f (resolve_now re)) s)"
  using assms by (simp add: post_resolve_def)

text \<open>
  Claim C7. On an existing report, a status update to \<^verbatim>\<open>resolved\<close> and a
  resolution upload (whether or not the verification threw) each leave the report
  resolved with both escalation flags cleared.
\<close>

theorem resolving_clears_escalation:
  assumes "get_report s i = Some r"
    and "\<not> patch_getErr pe" and "\<not> patch_updateErr pe"
    and "\<not> resolve_getErr re" and "\<not> resolve_updateErr re"
  shows "(\<exists>s' r'. patch_report pe i (Some ''resolved'') s = (Updated True, s') \<and>
            get_report s' i = Some r' \<and> status r' = Resolved \<and>
            \<not> escalated r' \<and> \<not> escalation_notified r') \<and>
         (\<exists>ok s' r'. post_resolve re i (Some f) s = (ResolutionSaved ok, s') \<and>
            get_report s' i = Some r' \<and> status r' = Resolved \<and>
            \<not> escalated r' \<and> \<not> escalation_notified r')"
proof
  from get_report_Some[OF assms(1)] have idr: "report_id r = i" by simp
  let ?f = "set_status Resolved (patch_txHash pe) (patch_now pe)"
  have p: "patch_report pe i (Some ''resolved'') s = (Updated True, update_where_id i ?f s)"
    using patch_report_found[OF assms(1-3), of "''resolved''" Resolved]
    by (simp add: parse_status_def)
  have "get_report (update_where_id i ?f s) i = Some (?f r)"
    using get_report_update[of ?f i s i, OF set_status_id] assms(1) idr by simp
  moreover have "status (?f r) = Resolved \<and> \<not> escalated (?f r) \<and> \<not> escalation_notified (?f r)"
    by (simp add: set_status_def)
  ultimately show "\<exists>s' r'. patch_report pe i (Some ''resolved'') s = (Updated True, s') \<and>
            get_report s' i = Some r' \<and> status r' = Resolved \<and>
            \<not> escalated r' \<and> \<not> escalation_notified r'"
    using p by simp
  let ?g = "set_resolved f (resolve_now re)"
  have q: "post_resolve re i (Some f) s =
      (ResolutionSaved (\<not> verifyResolution_throws re), update_where_id i ?g s)"
    by (rule post_resolve_found[OF assms(1,4,5)])
  have "get_report (update_where_id i ?g s) i = Some (?g r)"
    using get_report_update[of ?g i s i, OF set_resolved_id] assms(1) idr by simp
  moreover have "status (?g r) = Resolved \<and> \<not> escalated (?g r) \<and> \<not> escalation_notified (?g r)"
    by (simp add: set_resolved_def)
  ultimately show "\<exists>ok s' r'. post_resolve re i (Some f) s = (ResolutionSaved ok, s') \<and>
            get_report s' i = Some r' \<and> status r' = Resolved \<and>
            \<not> escalated r' \<and> \<not> escalation_notified r'"
    using q by simp
qed

lemma patch_report_store:
  "snd (patch_report pe i body_status s) = s \<or>
   (\<exists>st. (if missing body_status then None else parse_status (the body_status)) = Some st \<and>
         snd (patch_report pe i body_status s) =
           update_where_id i (set_status st (patch_txHash pe) (patch_now pe)) s)"
  by (auto simp: patch_report_def split: option.splits)

text \<open>
  Claim C8. A status update to \<^verbatim>\<open>pending\<close> or \<^verbatim>\<open>verified\<close> on an
  existing report leaves its two escalation flags, and those of every other row, as
  they were.
\<close>

theorem open_status_keeps_escalation:
  assumes "body_status = Some ''pending'' \<or> body_status = Some ''verified''"
    and "get_report s i = Some r"
  shows "\<exists>r'. get_report (snd (patch_report pe i body_status s)) i = Some r' \<and>
           escalated r' = escalated r \<and> escalation_notified r' = escalation_notified r \<and>
           map escalated (rows (snd (patch_report pe i body_status s))) = map escalated (rows s) \<and>
           map escalation_notified (rows (snd (patch_report pe i body_status s))) =
             map escalation_notified (rows s)"
proof -
  let ?s' = "snd (patch_report pe i body_status s)"
  from patch_report_store[of pe i body_status s]
  show ?thesis
  proof
    assume "?s' = s"
    with assms(2) show ?thesis by simp
  next
    assume "\<exists>st. (if missing body_status then None else parse_status (the body_status)) = Some st \<and>
         ?s' = update_where_id i (set_status st (patch_txHash pe) (patch_now pe)) s"
    then obtain st where
      st: "(if missing body_status then None else parse_status (the body_status)) = Some st"
      and s': "?s' = update_where_id i (set_status st (patch_txHash pe) (patch_now pe)) s"
      by blast
    from st assms(1) have nr: "st \<noteq> Resolved"
      by (auto simp: missing_def parse_status_def)
    let ?f = "set_status st (patch_txHash pe) (patch_now pe)"
    from nr have keep: "escalated (?f x) = escalated x"
        "escalation_notified (?f x) = escalation_notified x" for x
      by (simp_all add: set_status_def)
    from get_report_Some[OF assms(2)] have idr: "report_id r = i" by simp
    have g: "get_report ?s' i = Some (?f r)"
      unfolding s' using get_report_update[of ?f i s i, OF set_status_id] assms(2) idr by simp
    have m1: "map escalated (rows ?s') = map escalated (rows s)"
      unfolding s' by (simp add: update_where_id_def keep)
    have m2: "map escalation_notified (rows ?s') = map escalation_notified (rows s)"
      unfolding s' by (simp add: update_where_id_def keep)
    from g keep[of r] m1 m2 show ?thesis by simp
  qed
qed

section \<open>The examples, evaluated\<close>

text \<open>
  Report A is submitted into the empty table and becomes primary; report B, at the same
  point, is merged into it.
\<close>

lemma calculateDistance_same:
  "\<not> ro lat lon lat lon \<Longrightarrow> calculateDistance ro lat lon lat lon = Some 0"
  by (simp add: calculateDistance_def atan2_def)

lemma example_first_submission:
  "post_report example_env submission_A empty_store = (Created 1 False None, store_A)"
  by (simp add: post_report_def example_env_def submission_A_def empty_store_def missing_def
      example_parseFloat_def findNearbyReports_def select_active_def insert_row_def
      store_A_def report_A_def)

lemma example_candidates:
  "findNearbyReports (\<lambda>lat1 lon1 lat2 lon2. False) False store_A 12 77 50 None =
     Some [\<lparr>row = report_A, distance = Some 0\<rparr>]"
  by (simp add: findNearbyReports_def select_active_def store_A_def report_A_def primary_row_def
      calculateDistance_same js_le_def)

lemma example_served:
  "served example_env submission_A" "served example_env submission_B"
  "served (example_env\<lparr>updateErr := True\<rparr>) submission_B"
  by (simp_all add: served_def example_env_def submission_A_def submission_B_def missing_def
      example_parseFloat_def)

lemma example_accepted:
  "accepted example_env submission_A" "accepted example_env submission_B"
  using example_served by (simp_all add: accepted_def example_env_def)

lemma example_candidates_B:
  assumes "parseFloat e = example_parseFloat"
    and "rounds_outside e = (\<lambda>lat1 lon1 lat2 lon2. False)"
  shows "candidates e submission_B store_A = [\<lparr>row = report_A, distance = Some 0\<rparr>]"
proof -
  have "parseFloat e ''12'' = Some 12" "parseFloat e ''77'' = Some 77"
    by (simp_all add: assms(1) example_parseFloat_def)
  then show ?thesis
    by (simp add: candidates_def submission_B_def assms(2) example_candidates)
qed

lemma example_match:
  "fst (similarity_loop (\<lambda>p. True) (\<lambda>c. Returned example_comparison)
         [\<lparr>row = report_A, distance = Some 0\<rparr>]) =
   Some \<lparr>primaryReportId = 1, dup_similarityScore = 85, dup_distance = Some 0,
         dup_reasoning = ''same pothole''\<rparr>"
  by (simp add: example_comparison_def score_ge_def report_A_def primary_row_def)

lemma example_second_submission:
  "post_report example_env submission_B store_A = (Created 2 True (Some 1), store_AB)"
proof -
  have p: "parseFloat example_env ''12'' = Some 12" "parseFloat example_env ''77'' = Some 77"
    by (simp_all add: example_env_def example_parseFloat_def)
  have c: "candidates example_env submission_B store_A = [\<lparr>row = report_A, distance = Some 0\<rparr>]"
    by (rule example_candidates_B) (simp_all add: example_env_def)
  have o: "existsSync example_env = (\<lambda>p. True)"
    "compare_with example_env = (\<lambda>c. Returned example_comparison)"
    by (simp_all add: example_env_def)
  have s: "seq store_A = 1" by (simp add: store_A_def)
  have u: "update_primary (insert_row store_A report_B) 1 2 = store_AB"
    by (simp add: update_primary_def update_where_id_def insert_row_def store_A_def store_AB_def
        report_A_def report_B_def primary_row_def duplicate_row_def)
  show ?thesis
    unfolding accepted_post_report[OF example_accepted(2)] c o example_match
    by (simp add: submission_B_def p s u report_B_def[symmetric])
qed


lemma reachable_store_AB: "reachable store_AB"
proof -
  have e: "\<not> updateErr example_env" by (simp add: example_env_def)
  from reachable.submit[OF reachable.start e, of submission_A]
  have "reachable store_A" by (simp add: example_first_submission)
  from reachable.submit[OF this e, of submission_B]
  show ?thesis by (simp add: example_second_submission)
qed

theorem first_match_wins_witness:
  "\<not> is_match (\<lambda>p. True) example_scores (candidate 3) \<and>
   is_match (\<lambda>p. True) example_scores (candidate 2) \<and>
   is_match (\<lambda>p. True) example_scores (candidate 1) \<and>
   (\<exists>info. similarity_loop (\<lambda>p. True) example_scores [candidate 3, candidate 2, candidate 1] =
              (Some info, [3, 2]) \<and>
            primaryReportId info = 2)"
proof -
  have i: "nearby_id (candidate k) = k" for k
    by (simp add: nearby_id_def candidate_def)
  have m: "is_match (\<lambda>p. True) example_scores (candidate 2)"
    "is_match (\<lambda>p. True) example_scores (candidate 1)"
    by (simp_all add: is_match_def example_scores_def i score_ge_def)
  have n: "\<not> is_match (\<lambda>p. True) example_scores (candidate 3)"
    by (simp add: is_match_def example_scores_def i score_ge_def)
  then have pre: "\<forall>x\<in>set [candidate 3]. \<not> is_match (\<lambda>p. True) example_scores x"
    by simp
  from first_match_wins[OF pre m(1), of "[candidate 1]"] m n
  show ?thesis by (simp add: i has_photo_def)
qed


text \<open>
  Report B submitted while the UPDATE of the primary fails: the handler logs the error
  and answers 201 all the same.
\<close>

lemma example_failed_update:
  "post_report (example_env\<lparr>updateErr := True\<rparr>) submission_B store_A =
     (Created 2 True (Some 1), stale_store)"
proof -
  let ?e = "example_env\<lparr>updateErr := True\<rparr>"
  have p: "parseFloat example_env ''12'' = Some 12" "parseFloat example_env ''77'' = Some 77"
    by (simp_all add: example_env_def example_parseFloat_def)
  have c: "candidates ?e submission_B store_A = [\<lparr>row = report_A, distance = Some 0\<rparr>]"
    by (rule example_candidates_B) (simp_all add: example_env_def)
  have o: "existsSync ?e = (\<lambda>p. True)" "compare_with ?e = (\<lambda>c. Returned example_comparison)"
    by (simp_all add: example_env_def)
  have s: "seq store_A = 1" by (simp add: store_A_def)
  have r: "duplicate_row ?e ''b.jpg'' 12 77
             \<lparr>primaryReportId = 1, dup_similarityScore = 85, dup_distance = Some 0,
              dup_reasoning = ''same pothole''\<rparr> 2 = report_B"
    by (simp add: report_B_def duplicate_row_def example_env_def)
  have i: "insert_row store_A report_B = stale_store"
    by (simp add: insert_row_def store_A_def stale_store_def)
  have u: "updateErr ?e" by simp
  show ?thesis
    unfolding served_post_report[OF example_served(3)] c o example_match
    by (simp add: submission_B_def p s r i u)
qed

lemma stale_store_rows:
  "get_report stale_store 1 = Some report_A" "get_report stale_store 2 = Some report_B"
  "duplicates_of stale_store 1 = [report_B]"
  by (simp_all add: get_report_def duplicates_of_def stale_store_def report_A_def report_B_def
      primary_row_def duplicate_row_def)

text \<open>
  Claim C1 says that whenever a match is found the primary's count goes up by exactly
  one and the new id is appended to its merged ids. When the UPDATE of the primary
  fails, the handler only logs the error: report B matches report A, is stored as its
  duplicate and answered with 201, and report A keeps count 1 and no merged ids.
\<close>

theorem failed_update_leaves_primary_unmerged:
  "first_match (example_env\<lparr>updateErr := True\<rparr>) submission_B store_A =
     Some \<lparr>row = report_A, distance = Some 0\<rparr> \<and>
   post_report (example_env\<lparr>updateErr := True\<rparr>) submission_B store_A =
     (Created 2 True (Some 1), stale_store) \<and>
   get_report stale_store 2 = Some report_B \<and> duplicate_of report_B = Some 1 \<and>
   get_report store_A 1 = Some report_A \<and> get_report stale_store 1 = Some report_A \<and>
   duplicate_count report_A = 1 \<and> merged_list report_A = []"
proof -
  let ?e = "example_env\<lparr>updateErr := True\<rparr>"
  have c: "candidates ?e submission_B store_A = [\<lparr>row = report_A, distance = Some 0\<rparr>]"
    by (rule example_candidates_B) (simp_all add: example_env_def)
  have m: "is_match (existsSync ?e) (compare_with ?e) \<lparr>row = report_A, distance = Some 0\<rparr>"
    by (simp add: is_match_def example_env_def example_comparison_def score_ge_def)
  have fm: "first_match ?e submission_B store_A = Some \<lparr>row = report_A, distance = Some 0\<rparr>"
    unfolding first_match_def c using m by simp
  have a: "get_report store_A 1 = Some report_A"
    by (simp add: get_report_def store_A_def report_A_def primary_row_def)
  have v: "duplicate_of report_B = Some 1" "duplicate_count report_A = 1"
    "merged_list report_A = []"
    by (simp_all add: report_A_def report_B_def primary_row_def duplicate_row_def
        merged_list_def)
  from fm example_failed_update stale_store_rows(1,2) a v show ?thesis by simp
qed

text \<open>
  Claim C3 says that a primary's count is always one plus the number of its merged
  ids, which is the number of reports pointing to it. After the submission of A and
  the submission of B with a failing UPDATE, report A is primary with count 1 and no
  merged ids, and report B points to it.
\<close>

theorem failed_update_breaks_counts:
  "snd (post_report (example_env\<lparr>updateErr := True\<rparr>) submission_B
          (snd (post_report example_env submission_A empty_store))) = stale_store \<and>
   report_A \<in> set (rows stale_store) \<and> is_primary report_A \<and>
   duplicate_count report_A = 1 \<and> merged_list report_A = [] \<and>
   duplicates_of stale_store (report_id report_A) = [report_B] \<and>
   \<not> counts_agree stale_store report_A"
proof -
  have s: "snd (post_report (example_env\<lparr>updateErr := True\<rparr>) submission_B
          (snd (post_report example_env submission_A empty_store))) = stale_store"
    by (simp add: example_first_submission example_failed_update)
  have i: "report_id report_A = 1" "is_primary report_A" "duplicate_count report_A = 1"
    "merged_list report_A = []"
    by (simp_all add: report_A_def primary_row_def merged_list_def)
  have r: "report_A \<in> set (rows stale_store)" by (simp add: stale_store_def)
  have n: "\<not> counts_agree stale_store report_A"
    by (simp add: counts_agree_def i stale_store_rows(3))
  from s i r n stale_store_rows(3) show ?thesis by simp
qed



section \<open>Validation and the fallback comparison\<close>

lemma example_candidates_AC:
  "candidates throwing_env submission_B store_AC =
     [\<lparr>row = report_A, distance = Some 0\<rparr>, \<lparr>row = report_C, distance = Some 0\<rparr>]"
proof -
  have p: "parseFloat throwing_env ''12'' = Some 12" "parseFloat throwing_env ''77'' = Some 77"
    by (simp_all add: throwing_env_def example_env_def example_parseFloat_def)
  have r: "rounds_outside throwing_env = (\<lambda>lat1 lon1 lat2 lon2. False)"
    by (simp add: throwing_env_def example_env_def)
  have "findNearbyReports (\<lambda>lat1 lon1 lat2 lon2. False) False store_AC 12 77 50 None =
     Some [\<lparr>row = report_A, distance = Some 0\<rparr>, \<lparr>row = report_C, distance = Some 0\<rparr>]"
    by (simp add: findNearbyReports_def select_active_def store_AC_def report_A_def report_C_def
        primary_row_def calculateDistance_same js_le_def example_env_def)
  then show ?thesis
    by (simp add: candidates_def submission_B_def p r)
qed

theorem oracle_failure_is_non_match_witness:
  "wf_store store_AC \<and> served throwing_env submission_B \<and>
   candidates throwing_env submission_B store_AC =
     [\<lparr>row = report_A, distance = Some 0\<rparr>, \<lparr>row = report_C, distance = Some 0\<rparr>] \<and>
   unusable (existsSync throwing_env) (compare_with throwing_env)
     \<lparr>row = report_A, distance = Some 0\<rparr> \<and>
   snd (similarity_loop (existsSync throwing_env) (compare_with throwing_env)
          [\<lparr>row = report_A, distance = Some 0\<rparr>, \<lparr>row = report_C, distance = Some 0\<rparr>]) = [1, 2] \<and>
   (\<exists>n s' new.
      post_report throwing_env submission_B store_AC = (Created n True (Some 2), s') \<and>
      get_report s' n = Some new \<and> \<not> is_primary new \<and> duplicate_of new = Some 2)"
proof -
  let ?ex = "existsSync throwing_env" and ?cmp = "compare_with throwing_env"
  let ?a = "\<lparr>row = report_A, distance = Some 0\<rparr>" and ?c = "\<lparr>row = report_C, distance = Some 0\<rparr>"
  have w: "wf_store store_AC"
    by (simp add: wf_store_def store_AC_def report_A_def report_C_def primary_row_def)
  have s: "served throwing_env submission_B"
    by (simp add: served_def throwing_env_def example_env_def submission_B_def missing_def
        example_parseFloat_def)
  have ids: "nearby_id ?a = 1" "nearby_id ?c = 2"
    by (simp_all add: nearby_id_def report_A_def report_C_def primary_row_def)
  have ex: "?ex = (\<lambda>p. True)"
    by (simp add: throwing_env_def example_env_def)
  have cmp: "?cmp ?a = Threw" "?cmp ?c = Returned example_comparison"
    by (simp_all add: throwing_env_def ids)
  have u: "unusable ?ex ?cmp ?a" "\<not> unusable ?ex ?cmp ?c"
    by (simp_all add: unusable_def cmp ex)
  have m: "is_match ?ex ?cmp ?c"
    by (simp add: is_match_def cmp ex example_comparison_def score_ge_def)
  have f: "find (is_match ?ex ?cmp) (filter (\<lambda>c. \<not> unusable ?ex ?cmp c) [?a, ?c]) = Some ?c"
    using u m by simp
  have tr: "snd (similarity_loop ?ex ?cmp [?a, ?c]) = [1, 2]"
    using similarity_loop_unusable[OF u(1), of "[?c]"] similarity_loop_hit[OF m, of "[]"]
    by (simp add: has_photo_def ex ids)
  from oracle_failure_is_non_match[OF w s, where ex = ?ex and cmp = ?cmp]
  obtain n prim s' new where
    r: "post_report throwing_env submission_B store_AC = (Created n (prim \<noteq> None) prim, s')"
       "get_report s' n = Some new" "is_primary new = (prim = None)" "duplicate_of new = prim"
       "prim = map_option nearby_id
                (find (is_match ?ex ?cmp)
                   (filter (\<lambda>c. \<not> unusable ?ex ?cmp c)
                      (candidates throwing_env submission_B store_AC)))"
    by blast
  from r(5) have prim: "prim = Some 2"
    unfolding example_candidates_AC f by (simp add: ids)
  from r(1-4) have "\<exists>n s' new.
      post_report throwing_env submission_B store_AC = (Created n True (Some 2), s') \<and>
      get_report s' n = Some new \<and> \<not> is_primary new \<and> duplicate_of new = Some 2"
    unfolding prim by auto
  with w s example_candidates_AC u(1) tr show ?thesis by blast
qed

lemma escalated_store_row:
  "get_report escalated_store 1 = Some (report_A\<lparr>escalated := True, escalation_notified := True\<rparr>)"
  by (simp add: get_report_def escalated_store_def report_A_def primary_row_def)

theorem resolving_clears_escalation_witness:
  "get_report escalated_store 1 =
     Some (report_A\<lparr>escalated := True, escalation_notified := True\<rparr>) \<and>
   (\<exists>s' r'. patch_report example_patch_env 1 (Some ''resolved'') escalated_store = (Updated True, s') \<and>
      get_report s' 1 = Some r' \<and> status r' = Resolved \<and>
      \<not> escalated r' \<and> \<not> escalation_notified r') \<and>
   (\<exists>ok s' r'. post_resolve example_resolve_env 1 (Some ''fixed.jpg'') escalated_store =
        (ResolutionSaved ok, s') \<and>
      get_report s' 1 = Some r' \<and> status r' = Resolved \<and>
      \<not> escalated r' \<and> \<not> escalation_notified r')"
proof -
  have e: "\<not> patch_getErr example_patch_env" "\<not> patch_updateErr example_patch_env"
    "\<not> resolve_getErr example_resolve_env" "\<not> resolve_updateErr example_resolve_env"
    by (simp_all add: example_patch_env_def example_resolve_env_def)
  from resolving_clears_escalation[OF escalated_store_row e, of "''fixed.jpg''"] escalated_store_row
  show ?thesis by blast
qed

theorem open_status_keeps_escalation_witness:
  "get_report escalated_store 1 =
     Some (report_A\<lparr>escalated := True, escalation_notified := True\<rparr>) \<and>
   (\<exists>r'. get_report (snd (patch_report example_patch_env 1 (Some ''verified'') escalated_store)) 1 =
           Some r' \<and>
         status r' = Verified \<and> escalated r' \<and> escalation_notified r' \<and>
         map escalated (rows (snd (patch_report example_patch_env 1 (Some ''verified'') escalated_store))) =
           map escalated (rows escalated_store) \<and>
         map escalation_notified
           (rows (snd (patch_report example_patch_env 1 (Some ''verified'') escalated_store))) =
           map escalation_notified (rows escalated_store))"
proof -
  have b: "Some ''verified'' = Some ''pending'' \<or> Some ''verified'' = Some ''verified''" by simp
  have p: "snd (patch_report example_patch_env 1 (Some ''verified'') escalated_store) =
        update_where_id 1 (set_status Verified None 5) escalated_store"
    using patch_report_found[OF escalated_store_row, of example_patch_env "''verified''" Verified]
    by (simp add: example_patch_env_def parse_status_def)
  have s: "get_report (update_where_id 1 (set_status Verified None 5) escalated_store) 1 =
        Some (set_status Verified None 5 (report_A\<lparr>escalated := True, escalation_notified := True\<rparr>))"
    using get_report_update[of "set_status Verified None 5" 1 escalated_store 1, OF set_status_id]
      escalated_store_row
    by (simp add: report_A_def primary_row_def)
  from open_status_keeps_escalation[OF b escalated_store_row, of example_patch_env]
    escalated_store_row
  show ?thesis unfolding p s by (auto simp: set_status_def)
qed

text \<open>
  Validation: a missing photo or coordinate is answered with status 400, a coordinate
  that is not a number with status 500, and a rejected submission leaves the table as
  it was.
\<close>

lemma missing_field_rejected:
  assumes "photo req = None \<or> missing (latitude_field req) \<or> missing (longitude_field req)"
  shows "\<exists>msg. post_report e req s = (Rejected 400 msg, s)"
  using assms by (auto simp: post_report_def split: option.splits)

lemma unparsable_coordinate_rejected:
  assumes "photo req \<noteq> None" and "\<not> missing (latitude_field req)"
    and "\<not> missing (longitude_field req)"
    and "parseFloat e (the (latitude_field req)) = None \<or>
         parseFloat e (the (longitude_field req)) = None"
  shows "\<exists>msg. post_report e req s = (Rejected 500 msg, s)"
  using assms by (auto simp: post_report_def split: option.splits)

lemma rejected_leaves_store:
  assumes "post_report e req s = (Rejected code msg, s')"
  shows "s' = s"
  using post_report_cases[of e req s] assms by auto

text \<open>
  Claim C9 says that a submission with out-of-range coordinates is rejected before any
  store mutation. The handler only checks that the fields are present: a submission
  with latitude 999 gets status 201 and a row with that latitude is inserted.
\<close>

theorem out_of_range_latitude_is_stored:
  "post_report example_env out_of_range_submission empty_store =
     (Created 1 False None, \<lparr>rows = [primary_row example_env ''c.jpg'' 999 77 1], seq = 1\<rparr>) \<and>
   latitude (primary_row example_env ''c.jpg'' 999 77 1) = 999"
  by (simp add: post_report_def example_env_def out_of_range_submission_def empty_store_def
      missing_def example_parseFloat_def findNearbyReports_def select_active_def insert_row_def
      primary_row_def)

text \<open>
  The fallback comparison: for files that are not both empty the score lies between 0
  and 50, a failing \<^verbatim>\<open>statSync\<close> gives 0, and no fallback result
  reaches the
  threshold of 80.
\<close>

lemma fallback_score_capped:
  assumes "st p1 = Some a" and "st p2 = Some b" and "0 < a + b"
  shows "\<exists>v. similarityScore (fallbackImageSimilarity st p1 p2) = Some v \<and> 0 \<le> v \<and> v \<le> 50"
proof -
  from assms(3) have "0 < real a + real b" by linarith
  then show ?thesis using assms(1,2) by (simp add: fallbackImageSimilarity_def Let_def)
qed

lemma fallback_stat_failure:
  assumes "st p1 = None \<or> st p2 = None"
  shows "similarityScore (fallbackImageSimilarity st p1 p2) = Some 0"
  using assms by (auto simp: fallbackImageSimilarity_def split: option.splits)

lemma fallback_below_threshold: "\<not> score_ge (fallbackImageSimilarity st p1 p2) 80"
  by (auto simp: fallbackImageSimilarity_def score_ge_def Let_def split: option.splits)

text \<open>
  The retry loop makes at most three attempts and always returns; it ends in the
  fallback when the API key is not configured or all three attempts failed.
\<close>

lemma compareImages_unrolled:
  "compareImages e p1 p2 =
     (if \<not> apiKeyConfigured e then Some (fallbackImageSimilarity (statSize e) p1 p2)
      else case attemptOutcome e 1 of
        Answered cmp \<Rightarrow> Some (cmp\<lparr>aiProcessed := True\<rparr>)
      | Failed o1 \<Rightarrow>
          (case attemptOutcome e 2 of
             Answered cmp \<Rightarrow> Some (cmp\<lparr>aiProcessed := True\<rparr>)
           | Failed o2 \<Rightarrow>
               (case attemptOutcome e 3 of
                  Answered cmp \<Rightarrow> Some (cmp\<lparr>aiProcessed := True\<rparr>)
                | Failed o3 \<Rightarrow> Some (fallbackImageSimilarity (statSize e) p1 p2))))"
proof -
  let ?fb = "Some (fallbackImageSimilarity (statSize e) p1 p2)"
  have a3: "compareImages_from e p1 p2 3 =
      (if \<not> apiKeyConfigured e then ?fb
       else case attemptOutcome e 3 of
              Answered cmp \<Rightarrow> Some (cmp\<lparr>aiProcessed := True\<rparr>)
            | Failed o3 \<Rightarrow> ?fb)"
    by (subst compareImages_from.simps) (simp add: maxRetries_def split: attempt_outcome.splits)
  have a2: "compareImages_from e p1 p2 2 =
      (if \<not> apiKeyConfigured e then ?fb
       else case attemptOutcome e 2 of
              Answered cmp \<Rightarrow> Some (cmp\<lparr>aiProcessed := True\<rparr>)
            | Failed o2 \<Rightarrow> compareImages_from e p1 p2 3)"
    by (subst compareImages_from.simps) (simp add: maxRetries_def split: attempt_outcome.splits)
  have a1: "compareImages_from e p1 p2 1 =
      (if \<not> apiKeyConfigured e then ?fb
       else case attemptOutcome e 1 of
              Answered cmp \<Rightarrow> Some (cmp\<lparr>aiProcessed := True\<rparr>)
            | Failed o1 \<Rightarrow> compareImages_from e p1 p2 2)"
    by (subst compareImages_from.simps)
      (simp add: maxRetries_def numeral_2_eq_2 split: attempt_outcome.splits)
  show ?thesis
    unfolding compareImages_def a1 a2 a3 by (simp split: attempt_outcome.splits)
qed

lemma compareImages_returns: "\<exists>cmp. compareImages e p1 p2 = Some cmp"
  unfolding compareImages_unrolled by (simp split: attempt_outcome.splits)

lemma compareImages_degraded:
  assumes "degraded e"
  shows "compareImages e p1 p2 = Some (fallbackImageSimilarity (statSize e) p1 p2)"
  using assms unfolding compareImages_unrolled degraded_def
  by (auto split: attempt_outcome.splits)

text \<open>
  Claim C10 says that the fallback's score is at most 50. When both files are empty
  the score is NaN (0/0 passes through \<^verbatim>\<open>Math.max\<close> and
  \<^verbatim>\<open>Math.min\<close>), here with the API key not configured.
\<close>

theorem fallback_score_on_empty_files:
  "compareImages empty_files p1 p2 =
     Some (fallbackImageSimilarity (statSize empty_files) p1 p2) \<and>
   similarityScore (fallbackImageSimilarity (statSize empty_files) p1 p2) = None"
proof
  have "degraded empty_files" by (simp add: degraded_def empty_files_def)
  then show "compareImages empty_files p1 p2 =
     Some (fallbackImageSimilarity (statSize empty_files) p1 p2)"
    by (rule compareImages_degraded)
  show "similarityScore (fallbackImageSimilarity (statSize empty_files) p1 p2) = None"
    by (simp add: fallbackImageSimilarity_def empty_files_def)
qed

text \<open>
  A submission whose comparisons all ended in the fallback is stored as a primary report.
\<close>

lemma degraded_no_match:
  assumes "degraded ae" and "cmp c = oracle_of ae img c"
  shows "\<not> is_match ex cmp c"
  using assms(2) compareImages_degraded[OF assms(1), of img "photo_url (row c)"]
    fallback_below_threshold[of "statSize ae" img "photo_url (row c)"]
  by (simp add: is_match_def oracle_of_def)

lemma all_fallback_is_primary:
  assumes "accepted e req"
    and "\<forall>c\<in>set (candidates e req s). degraded (ae c) \<and> compare_with e c = oracle_of (ae c) img c"
  shows "post_report e req s =
           (Created (seq s + 1) False None,
            insert_row s (primary_row e (the (photo req))
                (the (parseFloat e (the (latitude_field req))))
                (the (parseFloat e (the (longitude_field req)))) (seq s + 1)))"
proof -
  have "\<forall>c\<in>set (candidates e req s). \<not> is_match (existsSync e) (compare_with e) c"
    using assms(2) degraded_no_match by blast
  from similarity_loop_none[OF this] show ?thesis
    unfolding accepted_post_report[OF assms(1)] by simp
qed

end
